theory Spec2Isabelle
  imports Complex_Main
begin

section \<open>Strings as the source uses them\<close>

text \<open>
  Python strings are modelled as \<open>string\<close> (lists of 8-bit characters).  The string
  operations the source relies on are \<open>str.lower()\<close>, \<open>str.strip()\<close>, \<open>str.endswith()\<close>
  and the substring test \<open>a in b\<close>; case and white space are modelled on the ASCII range.
\<close>

definition lower_char :: "char \<Rightarrow> char" where
  "lower_char c =
     (let n = (of_char c :: nat) in if 65 \<le> n \<and> n \<le> 90 then char_of (n + 32) else c)"

definition lower :: "string \<Rightarrow> string" where
  "lower s = map lower_char s"

definition is_space :: "char \<Rightarrow> bool" where
  "is_space c = (let n = (of_char c :: nat) in (9 \<le> n \<and> n \<le> 13) \<or> (28 \<le> n \<and> n \<le> 32))"

definition strip :: "string \<Rightarrow> string" where
  "strip s = rev (dropWhile is_space (rev (dropWhile is_space s)))"

fun startswith :: "string \<Rightarrow> string \<Rightarrow> bool" where
  "startswith s [] = True"
| "startswith [] (p # ps) = False"
| "startswith (c # cs) (p # ps) = (c = p \<and> startswith cs ps)"

definition endswith :: "string \<Rightarrow> string \<Rightarrow> bool" where
  "endswith s p = startswith (rev s) (rev p)"

text \<open>\<open>py_in p s\<close> is Python's \<open>p in s\<close> on strings: \<open>p\<close> occurs as a contiguous part of \<open>s\<close>.\<close>

fun py_in :: "string \<Rightarrow> string \<Rightarrow> bool" where
  "py_in p [] = (p = [])"
| "py_in p (c # cs) = (startswith (c # cs) p \<or> py_in p cs)"

section \<open>Inventory rows and the validator\<close>

text \<open>
  A row of the inventory spreadsheet as \<open>pandas.read_excel\<close> delivers it.  A cell that is
  empty in the sheet is \<open>NaN\<close> (\<open>None\<close> here); a text cell holds its text, the SKU cell the
  text that \<open>str\<close> yields for it, and the stock cell the whole number that \<open>int\<close> yields
  for it.  Only the three columns that steer the validator are spelled out here; the ten
  remaining columns (vendor, brand, price, ...) are carried as \<open>other_columns\<close> and are
  spelled out with the synchronizer, which converts them.
\<close>

record 'a inv_row =
  product_name :: "string option"
  sku :: "string option"
  total_stock :: "int option"
  other_columns :: 'a

text \<open>\<open>str(cell)\<close>: the text of a cell, \<open>"nan"\<close> for an empty one.\<close>

definition py_str :: "string option \<Rightarrow> string" where
  "py_str c = (case c of None \<Rightarrow> ''nan'' | Some s \<Rightarrow> s)"

text \<open>\<open>int(row.get("Total Stock", 0)) if pd.notna(...) else 0\<close>\<close>

definition row_qty :: "'a inv_row \<Rightarrow> int" where
  "row_qty r = (case total_stock r of None \<Rightarrow> 0 | Some q \<Rightarrow> q)"

definition is_toppenish_marker :: "'a inv_row \<Rightarrow> bool" where
  "is_toppenish_marker r =
     (py_in ''toppenish'' (lower (strip (py_str (product_name r)))) \<and>
      strip (py_str (sku r)) = ''99999'')"

definition is_yakima_marker :: "'a inv_row \<Rightarrow> bool" where
  "is_yakima_marker r =
     (py_in ''yakima'' (lower (strip (py_str (product_name r)))) \<and>
      strip (py_str (sku r)) = ''9999'')"

text \<open>
  The scanning loop of \<open>validate_inventory_file\<close>: the pair of quantities found so far,
  each overwritten whenever a later row matches the marker again.
\<close>

fun scan_markers :: "int option \<times> int option \<Rightarrow> 'a inv_row list \<Rightarrow> int option \<times> int option" where
  "scan_markers acc [] = acc"
| "scan_markers (t, y) (r # rs) =
     scan_markers
       (if is_toppenish_marker r then Some (row_qty r) else t,
        if is_yakima_marker r then Some (row_qty r) else y) rs"

datatype verdict = Valid | Wrong_file | No_marker

definition validate_inventory_file :: "'a inv_row list \<Rightarrow> verdict" where
  "validate_inventory_file df =
     (case scan_markers (None, None) df of
        (None, _) \<Rightarrow> No_marker
      | (Some t, None) \<Rightarrow> No_marker
      | (Some t, Some y) \<Rightarrow>
          if t = 1 \<and> y = 0 then Valid
          else if y = 1 then Wrong_file
          else Wrong_file)"

text \<open>
  The quantity a marker carries, in the words of the specification: the stock quantity of the
  marker row if one is found (of the last one, should the sheet repeat the marker).
\<close>

definition marker_qty :: "('a inv_row \<Rightarrow> bool) \<Rightarrow> 'a inv_row list \<Rightarrow> int option" where
  "marker_qty is_marker df =
     (case filter is_marker df of [] \<Rightarrow> None | m # ms \<Rightarrow> Some (row_qty (last (m # ms))))"

definition toppenish_qty :: "'a inv_row list \<Rightarrow> int option" where
  "toppenish_qty df = marker_qty is_toppenish_marker df"

definition yakima_qty :: "'a inv_row list \<Rightarrow> int option" where
  "yakima_qty df = marker_qty is_yakima_marker df"

section \<open>The watch folder and the file locator\<close>

datatype py_error =
  OSError | FileNotFoundError | PermissionError | ExcelError | ValueError | StoreError string

text \<open>
  The watch folder at one moment: \<open>None\<close> when it cannot be listed (\<open>os.listdir\<close> raises),
  otherwise its files with their modification times.  A file path
  \<open>os.path.join(watch_folder, file_name)\<close> is identified with the file name, the folder being
  fixed throughout one call.  \<open>os.path.getmtime\<close> succeeds on a file that is in the folder
  and raises on one that is not.  \<open>os.remove\<close> raises on a file that is not in the folder and
  on one the system does not let go (open in another program, say): \<open>removable\<close> tells
  which files it can remove.
\<close>

type_synonym 'm folder = "(string \<times> 'm) list option"

definition os_listdir :: "'m folder \<Rightarrow> py_error + string list" where
  "os_listdir d = (case d of None \<Rightarrow> Inl OSError | Some l \<Rightarrow> Inr (map fst l))"

definition os_getmtime :: "'m folder \<Rightarrow> string \<Rightarrow> py_error + 'm" where
  "os_getmtime d n =
     (case d of None \<Rightarrow> Inl OSError
      | Some l \<Rightarrow> (case map_of l n of None \<Rightarrow> Inl FileNotFoundError | Some m \<Rightarrow> Inr m))"

definition os_remove :: "(string \<Rightarrow> bool) \<Rightarrow> 'm folder \<Rightarrow> string \<Rightarrow> py_error + 'm folder" where
  "os_remove removable d n =
     (case d of None \<Rightarrow> Inl OSError
      | Some l \<Rightarrow>
          if n \<notin> fst ` set l then Inl FileNotFoundError
          else if \<not> removable n then Inl PermissionError
          else Inr (Some (filter (\<lambda>e. fst e \<noteq> n) l)))"

definition name_matches :: "string \<Rightarrow> string \<Rightarrow> bool" where
  "name_matches file_pattern file_name =
     (py_in file_pattern file_name \<and> endswith file_name ''.xlsx'')"

text \<open>
  The loop of \<open>find_all_inventory_files\<close>.  It runs inside one \<open>try\<close>: an exception of
  \<open>os.path.getmtime\<close> ends the loop and the files collected so far are returned.
  An entry is the triple (file path, modification time, file name).
\<close>

fun scan_folder ::
  "'m folder \<Rightarrow> string \<Rightarrow> string list \<Rightarrow> (string \<times> 'm \<times> string) list
     \<Rightarrow> (string \<times> 'm \<times> string) list" where
  "scan_folder d file_pattern [] inventory_files = inventory_files"
| "scan_folder d file_pattern (file_name # names) inventory_files =
     (if name_matches file_pattern file_name then
        (case os_getmtime d file_name of
           Inl e \<Rightarrow> inventory_files
         | Inr mod_time \<Rightarrow>
             scan_folder d file_pattern names
               (inventory_files @ [(file_name, mod_time, file_name)]))
      else scan_folder d file_pattern names inventory_files)"

definition find_all_inventory_files ::
  "'m folder \<Rightarrow> string \<Rightarrow> (string \<times> 'm \<times> string) list" where
  "find_all_inventory_files watch_folder file_pattern =
     (case os_listdir watch_folder of
        Inl e \<Rightarrow> []
      | Inr names \<Rightarrow> scan_folder watch_folder file_pattern names [])"

text \<open>
  \<open>files.sort(key=lambda x: x[1], reverse=True)\<close>: a stable sort into descending order of
  the modification time (entries with equal keys keep their order).
\<close>

fun insort_desc ::
  "(string \<times> ('m::linorder) \<times> string) \<Rightarrow> (string \<times> 'm \<times> string) list
     \<Rightarrow> (string \<times> 'm \<times> string) list" where
  "insort_desc x [] = [x]"
| "insort_desc x (y # ys) =
     (if fst (snd y) \<le> fst (snd x) then x # y # ys else y # insort_desc x ys)"

definition sort_desc ::
  "(string \<times> ('m::linorder) \<times> string) list \<Rightarrow> (string \<times> 'm \<times> string) list" where
  "sort_desc files = foldr insort_desc files []"

definition get_latest_inventory_file ::
  "('m::linorder) folder \<Rightarrow> string \<Rightarrow> string option \<times> string list" where
  "get_latest_inventory_file watch_folder file_pattern =
     (case sort_desc (find_all_inventory_files watch_folder file_pattern) of
        [] \<Rightarrow> (None, [])
      | f # fs \<Rightarrow> (Some (fst f), map fst (f # fs)))"

text \<open>
  \<open>delete_all_inventory_files\<close>: every path is tried; a failing \<open>os.remove\<close> is caught,
  reported and the loop goes on.
\<close>

fun delete_all_inventory_files ::
  "(string \<Rightarrow> bool) \<Rightarrow> 'm folder \<Rightarrow> string list \<Rightarrow> 'm folder" where
  "delete_all_inventory_files removable d [] = d"
| "delete_all_inventory_files removable d (file_path # file_list) =
     (case os_remove removable d file_path of
        Inl e \<Rightarrow> delete_all_inventory_files removable d file_list
      | Inr d' \<Rightarrow> delete_all_inventory_files removable d' file_list)"

section \<open>Floating-point numbers\<close>

text \<open>
  A Python \<open>float\<close> is an IEEE 754 double.  A finite double is modelled by the rational
  number it denotes, and every arithmetic operation by the exact operation followed by
  rounding to the nearest double, ties to even, with 53 bits of precision.  The exponent
  range is not bounded: overflow and subnormal results, which amounts of money and
  percentages do not reach, are outside the model.
\<close>

function ilog2 :: "int \<Rightarrow> int" where
  "ilog2 n = (if n < 2 then 0 else 1 + ilog2 (n div 2))"
  by pat_completeness auto
termination
  by (relation "measure nat") auto

text \<open>The exponent \<open>e\<close> with \<open>2^e \<le> |x| < 2^(e+1)\<close>, for \<open>x \<noteq> 0\<close>.\<close>

definition exponent_of :: "rat \<Rightarrow> int" where
  "exponent_of x =
     (let (p, q) = quotient_of \<bar>x\<bar>;
          e0 = ilog2 p - ilog2 q
      in if \<bar>x\<bar> < 2 powi e0 then e0 - 1 else e0)"

definition round_half_even :: "rat \<Rightarrow> int" where
  "round_half_even y =
     (let r = \<lfloor>y\<rfloor>; f = y - of_int r
      in if f < 1 / 2 then r else if 1 / 2 < f then r + 1 else if even r then r else r + 1)"

definition to_double :: "rat \<Rightarrow> rat" where
  "to_double x =
     (if x = 0 then 0
      else let u = 2 powi (exponent_of x - 52) in of_int (round_half_even (x / u)) * u)"

definition fdiv :: "rat \<Rightarrow> rat \<Rightarrow> rat" where
  "fdiv a b = to_double (a / b)"

definition fmul :: "rat \<Rightarrow> rat \<Rightarrow> rat" where
  "fmul a b = to_double (a * b)"

text \<open>
  \<open>round(x, 2)\<close>: the exact value of \<open>x\<close> is rounded to two decimals, ties to even, and
  the double nearest to that decimal is returned.
\<close>

definition py_round2 :: "rat \<Rightarrow> rat" where
  "py_round2 x = to_double (of_int (round_half_even (x * 100)) / 100)"

text \<open>\<open>int(x)\<close> of a float truncates towards zero.\<close>

definition py_int :: "rat \<Rightarrow> int" where
  "py_int x = (if 0 \<le> x then \<lfloor>x\<rfloor> else \<lceil>x\<rceil>)"

section \<open>The inventory synchronizer\<close>

text \<open>
  The pandas filter of \<open>sync_inventory\<close> that drops the two marker rows:
  \<open>str.lower().str.contains(..., na=False)\<close> on the product name (an empty cell never
  matches) and \<open>astype(str).str.strip()\<close> on the SKU.
\<close>

definition name_contains :: "string \<Rightarrow> string option \<Rightarrow> bool" where
  "name_contains marker c = (case c of None \<Rightarrow> False | Some s \<Rightarrow> py_in marker (lower s))"

definition is_marker_row :: "'a inv_row \<Rightarrow> bool" where
  "is_marker_row r =
     ((name_contains ''toppenish'' (product_name r) \<and> strip (py_str (sku r)) = ''99999'') \<or>
      (name_contains ''yakima'' (product_name r) \<and> strip (py_str (sku r)) = ''9999''))"

text \<open>
  A cell of a numeric column as \<open>pandas.read_excel\<close> delivers it: empty, a number, or a
  text.  \<open>float\<close> and \<open>int\<close> return the number for a number (\<open>int\<close> truncates), parse a
  text and raise \<open>ValueError\<close> on a text that is no numeral.  Which texts are numerals, and
  of which value, is fixed by Python and not by the source: it is a parameter.
\<close>

datatype cell = NaN | Num rat | Text string

record py_builtins =
  float_of_text :: "string \<Rightarrow> rat option"
  int_of_text :: "string \<Rightarrow> int option"

text \<open>\<open>float(v) if pd.notna(v) else 0\<close> and \<open>int(v) if pd.notna(v) else 0\<close>\<close>

definition float_cell :: "py_builtins \<Rightarrow> cell \<Rightarrow> py_error + rat" where
  "float_cell py c =
     (case c of
        NaN \<Rightarrow> Inr 0
      | Num v \<Rightarrow> Inr v
      | Text s \<Rightarrow> (case float_of_text py s of None \<Rightarrow> Inl ValueError | Some v \<Rightarrow> Inr v))"

definition int_cell :: "py_builtins \<Rightarrow> cell \<Rightarrow> py_error + int" where
  "int_cell py c =
     (case c of
        NaN \<Rightarrow> Inr 0
      | Num v \<Rightarrow> Inr (py_int v)
      | Text s \<Rightarrow> (case int_of_text py s of None \<Rightarrow> Inl ValueError | Some i \<Rightarrow> Inr i))"

text \<open>
  The gross margin: a text is stripped of its percent signs, parsed and divided by 100;
  anything else is converted as a float.
\<close>

definition gross_margin_cell :: "py_builtins \<Rightarrow> cell \<Rightarrow> py_error + rat" where
  "gross_margin_cell py c =
     (case c of
        Text s \<Rightarrow>
          (case float_of_text py (filter (\<lambda>ch. ch \<noteq> CHR ''%'') s) of
             None \<Rightarrow> Inl ValueError
           | Some v \<Rightarrow> Inr (fdiv v 100))
      | Num v \<Rightarrow> Inr v
      | NaN \<Rightarrow> Inr 0)"

text \<open>
  The ten columns besides product name, SKU and total stock, and a row of the sheet as it
  is read: the stock cell too is a cell of a numeric column.
\<close>

record other_cells =
  vendor :: "string option"
  brand :: "string option"
  price :: cell
  cost :: cell
  committed :: cell
  open_stock :: cell
  qty_on_order :: cell
  gross_margin :: cell
  total_retail :: cell
  total_cost :: cell

record sheet_row =
  cell_product_name :: "string option"
  cell_sku :: "string option"
  cell_total_stock :: cell
  cell_other :: other_cells

text \<open>
  \<open>validate_inventory_file\<close> evaluates \<open>int(...)\<close> on the stock cell of every row it scans,
  and it scans them all: it raises exactly when one stock cell is a text that is no
  numeral.  \<open>read_stock\<close> performs these conversions, row by row, and yields the rows with
  the stock the validator (and after it \<open>clean_data\<close>) computes with.
\<close>

definition stock_cell :: "py_builtins \<Rightarrow> cell \<Rightarrow> py_error + int option" where
  "stock_cell py c =
     (case c of
        NaN \<Rightarrow> Inr None
      | Num v \<Rightarrow> Inr (Some (py_int v))
      | Text s \<Rightarrow> (case int_of_text py s of None \<Rightarrow> Inl ValueError | Some i \<Rightarrow> Inr (Some i)))"

fun read_stock :: "py_builtins \<Rightarrow> sheet_row list \<Rightarrow> py_error + other_cells inv_row list" where
  "read_stock py [] = Inr []"
| "read_stock py (r # rs) =
     (case stock_cell py (cell_total_stock r) of
        Inl e \<Rightarrow> Inl e
      | Inr q \<Rightarrow>
          (case read_stock py rs of
             Inl e \<Rightarrow> Inl e
           | Inr df \<Rightarrow>
               Inr (\<lparr>product_name = cell_product_name r, sku = cell_sku r, total_stock = q,
                     other_columns = cell_other r\<rparr> # df)))"

record inv_record =
  rec_product_name :: "string option"
  rec_sku :: "string option"
  rec_vendor :: "string option"
  rec_brand :: "string option"
  rec_price :: rat
  rec_cost :: rat
  rec_total_stock :: int
  rec_committed :: int
  rec_open_stock :: int
  rec_qty_on_order :: int
  rec_gross_margin :: rat
  rec_total_retail :: rat
  rec_total_cost :: rat

text \<open>
  The body of the loop of \<open>clean_data\<close>: the record of one row, or the exception of the
  first conversion that fails, in the order in which the source evaluates them.  The SKU
  is \<open>str(...).strip()\<close> of a non-empty cell and \<open>None\<close> otherwise.
\<close>

definition clean_sku :: "'a inv_row \<Rightarrow> string option" where
  "clean_sku r = (case sku r of None \<Rightarrow> None | Some s \<Rightarrow> Some (strip s))"

definition clean_row :: "py_builtins \<Rightarrow> other_cells inv_row \<Rightarrow> py_error + inv_record" where
  "clean_row py r =
     (let c = other_columns r in
      case gross_margin_cell py (gross_margin c) of Inl e \<Rightarrow> Inl e | Inr gm \<Rightarrow>
      case float_cell py (price c) of Inl e \<Rightarrow> Inl e | Inr pr \<Rightarrow>
      case float_cell py (cost c) of Inl e \<Rightarrow> Inl e | Inr co \<Rightarrow>
      case int_cell py (committed c) of Inl e \<Rightarrow> Inl e | Inr cm \<Rightarrow>
      case int_cell py (open_stock c) of Inl e \<Rightarrow> Inl e | Inr os \<Rightarrow>
      case int_cell py (qty_on_order c) of Inl e \<Rightarrow> Inl e | Inr qo \<Rightarrow>
      case float_cell py (total_retail c) of Inl e \<Rightarrow> Inl e | Inr tr \<Rightarrow>
      case float_cell py (total_cost c) of Inl e \<Rightarrow> Inl e | Inr tc \<Rightarrow>
        Inr \<lparr>rec_product_name = product_name r, rec_sku = clean_sku r,
             rec_vendor = vendor c, rec_brand = brand c,
             rec_price = pr, rec_cost = co,
             rec_total_stock = row_qty r, rec_committed = cm, rec_open_stock = os,
             rec_qty_on_order = qo, rec_gross_margin = gm,
             rec_total_retail = tr, rec_total_cost = tc\<rparr>)"

text \<open>\<open>if record["sku"]\<close>: the SKU is a non-empty string.\<close>

definition has_sku :: "inv_record \<Rightarrow> bool" where
  "has_sku rec1 = (case rec_sku rec1 of None \<Rightarrow> False | Some s \<Rightarrow> s \<noteq> [])"

text \<open>
  \<open>clean_data\<close>: every row is converted, also one that is then dropped for want of a SKU;
  the first exception ends the loop.
\<close>

fun clean_data :: "py_builtins \<Rightarrow> other_cells inv_row list \<Rightarrow> py_error + inv_record list" where
  "clean_data py [] = Inr []"
| "clean_data py (r # rs) =
     (case clean_row py r of
        Inl e \<Rightarrow> Inl e
      | Inr rec1 \<Rightarrow>
          (case clean_data py rs of
             Inl e \<Rightarrow> Inl e
           | Inr records \<Rightarrow> Inr (if has_sku rec1 then rec1 # records else records)))"

text \<open>
  What \<open>sync_inventory\<close> acts on: the watch folder, the files \<open>os.remove\<close> can remove, the
  content \<open>pd.read_excel\<close> yields for each file (or the exception it raises), the
  inventory table keyed by SKU, whether the store answers, and the batches handed to
  \<open>upsert\<close> so far.
\<close>

record 'm world =
  folder :: "'m folder"
  removable :: "string \<Rightarrow> bool"
  read_excel :: "string \<Rightarrow> py_error + sheet_row list"
  store_reachable :: bool
  inventory_table :: "string option \<rightharpoonup> inv_record"
  upsert_requests :: "inv_record list list"

text \<open>
  \<open>supabase.table("inventory").upsert(records, on_conflict="sku").execute()\<close>: the request is
  issued; an unreachable store raises and leaves the table as it was.
\<close>

definition upsert_rows :: "inv_record list \<Rightarrow> (string option \<rightharpoonup> inv_record) \<Rightarrow> (string option \<rightharpoonup> inv_record)" where
  "upsert_rows records table = fold (\<lambda>r t. t(rec_sku r \<mapsto> r)) records table"

definition upsert :: "'m world \<Rightarrow> inv_record list \<Rightarrow> (py_error + unit) \<times> 'm world" where
  "upsert w records =
     (let w1 = w\<lparr>upsert_requests := upsert_requests w @ [records]\<rparr> in
      if store_reachable w
      then (Inr (), w1\<lparr>inventory_table := upsert_rows records (inventory_table w)\<rparr>)
      else (Inl (StoreError ''unreachable''), w1))"

text \<open>
  \<open>sync_inventory\<close> returns its boolean result and the world it leaves behind.  Everything
  after the file lookup runs inside one \<open>try\<close>: an exception of \<open>read_excel\<close>, of the
  validator's \<open>int\<close>, of a conversion in \<open>clean_data\<close> or of the upsert ends the call with
  \<open>False\<close> and nothing deleted.  The console output, the tray notifications and the
  two-second pause change none of the things modelled here and are left out.
\<close>

definition sync_inventory ::
  "py_builtins \<Rightarrow> ('m::linorder) world \<Rightarrow> string \<Rightarrow> bool \<times> 'm world" where
  "sync_inventory py w file_pattern =
     (case get_latest_inventory_file (folder w) file_pattern of
        (None, all_files) \<Rightarrow> (False, w)
      | (Some latest_file, all_files) \<Rightarrow>
          (case read_excel w latest_file of
             Inl e \<Rightarrow> (False, w)
           | Inr sheet \<Rightarrow>
               (case read_stock py sheet of
                  Inl e \<Rightarrow> (False, w)
                | Inr df \<Rightarrow>
                    (case validate_inventory_file df of
                       Wrong_file \<Rightarrow>
                         (False, w\<lparr>folder :=
                                      delete_all_inventory_files (removable w) (folder w) all_files\<rparr>)
                     | No_marker \<Rightarrow>
                         (False, w\<lparr>folder :=
                                      delete_all_inventory_files (removable w) (folder w) all_files\<rparr>)
                     | Valid \<Rightarrow>
                         (case clean_data py (filter (\<lambda>r. \<not> is_marker_row r) df) of
                            Inl e \<Rightarrow> (False, w)
                          | Inr records \<Rightarrow>
                              if records = [] then (False, w)
                              else (case upsert w records of
                                      (Inl e, w1) \<Rightarrow> (False, w1)
                                    | (Inr u, w1) \<Rightarrow>
                                        (True, w1\<lparr>folder :=
                                                    delete_all_inventory_files (removable w1)
                                                      (folder w1) all_files\<rparr>)))))))"

text \<open>The names of the files present in the watch folder.\<close>

definition folder_files :: "'m folder \<Rightarrow> string set" where
  "folder_files d = (case d of None \<Rightarrow> {} | Some l \<Rightarrow> fst ` set l)"

section \<open>The printer resolver\<close>

text \<open>
  The two searches of \<open>get_actual_printer_name\<close>: the first available printer whose
  lower-cased name equals the lower-cased configured name, and the first whose lower-cased
  name contains it.
\<close>

fun case_insensitive_match :: "string list \<Rightarrow> string \<Rightarrow> string option" where
  "case_insensitive_match [] printer_name = None"
| "case_insensitive_match (p # ps) printer_name =
     (if lower p = lower printer_name then Some p else case_insensitive_match ps printer_name)"

fun partial_match :: "string list \<Rightarrow> string \<Rightarrow> string option" where
  "partial_match [] printer_name = None"
| "partial_match (p # ps) printer_name =
     (if py_in (lower printer_name) (lower p) then Some p else partial_match ps printer_name)"

text \<open>
  \<open>available_printers\<close> is what \<open>get_available_printers()\<close> returned (the empty list when
  the printers could not be listed).
\<close>

definition get_actual_printer_name :: "string list \<Rightarrow> string \<Rightarrow> string" where
  "get_actual_printer_name available_printers printer_name =
     (if available_printers = [] then printer_name
      else if printer_name \<in> set available_printers then printer_name
      else (case case_insensitive_match available_printers printer_name of
              Some p \<Rightarrow> p
            | None \<Rightarrow>
                (case partial_match available_printers printer_name of
                   Some p \<Rightarrow> p
                 | None \<Rightarrow> printer_name)))"

section \<open>The pending-action mailbox\<close>

text \<open>
  The global \<open>pending_action\<close> holds \<open>None\<close>, \<open>"settings"\<close>, \<open>"orders"\<close> or the tuple
  \<open>("update", version, url)\<close>.  The state also records which of the two management windows
  is open and, in order, the actions that have been executed.
\<close>

datatype action = Settings | Orders | Update string string

record ui_state =
  pending_action :: "action option"
  settings_window :: bool
  orders_window :: bool
  executed :: "action list"

definition request_show_settings :: "ui_state \<Rightarrow> ui_state" where
  "request_show_settings s = s\<lparr>pending_action := Some Settings\<rparr>"

definition request_show_orders :: "ui_state \<Rightarrow> ui_state" where
  "request_show_orders s = s\<lparr>pending_action := Some Orders\<rparr>"

definition on_update_available :: "string \<Rightarrow> string \<Rightarrow> ui_state \<Rightarrow> ui_state" where
  "on_update_available latest_version download_url s =
     s\<lparr>pending_action := Some (Update latest_version download_url)\<rparr>"

text \<open>
  \<open>do_show_settings\<close> and \<open>do_show_orders\<close>: an open window of the same kind is brought to
  the front; otherwise the other window is closed and the requested one opened.
\<close>

definition do_show_settings :: "ui_state \<Rightarrow> ui_state" where
  "do_show_settings s =
     (let s1 = s\<lparr>executed := executed s @ [Settings]\<rparr> in
      if settings_window s1 then s1
      else s1\<lparr>orders_window := False, settings_window := True\<rparr>)"

definition do_show_orders :: "ui_state \<Rightarrow> ui_state" where
  "do_show_orders s =
     (let s1 = s\<lparr>executed := executed s @ [Orders]\<rparr> in
      if orders_window s1 then s1
      else s1\<lparr>settings_window := False, orders_window := True\<rparr>)"

definition prompt_update :: "string \<Rightarrow> string \<Rightarrow> ui_state \<Rightarrow> ui_state" where
  "prompt_update latest_version download_url s =
     s\<lparr>executed := executed s @ [Update latest_version download_url]\<rparr>"

text \<open>One run of \<open>check_pending_actions\<close>, the drain tick of the main thread.\<close>

definition check_pending_actions :: "ui_state \<Rightarrow> ui_state" where
  "check_pending_actions s =
     (case pending_action s of
        Some Settings \<Rightarrow> do_show_settings (s\<lparr>pending_action := None\<rparr>)
      | Some Orders \<Rightarrow> do_show_orders (s\<lparr>pending_action := None\<rparr>)
      | Some (Update latest_version download_url) \<Rightarrow>
          prompt_update latest_version download_url (s\<lparr>pending_action := None\<rparr>)
      | None \<Rightarrow> s)"

text \<open>
  The threads interleave as a sequence of events: a request by a background thread or a
  drain tick of the main thread.
\<close>

datatype event = Request action | Tick

definition request :: "action \<Rightarrow> ui_state \<Rightarrow> ui_state" where
  "request a s =
     (case a of
        Settings \<Rightarrow> request_show_settings s
      | Orders \<Rightarrow> request_show_orders s
      | Update latest_version download_url \<Rightarrow> on_update_available latest_version download_url s)"

fun step :: "ui_state \<Rightarrow> event \<Rightarrow> ui_state" where
  "step s (Request a) = request a s"
| "step s Tick = check_pending_actions s"

definition run :: "ui_state \<Rightarrow> event list \<Rightarrow> ui_state" where
  "run s evs = foldl step s evs"

section \<open>The sales aggregator\<close>

text \<open>
  A row of the sales spreadsheet; an empty numeric cell is \<open>NaN\<close> (\<open>None\<close>).  The row whose
  \<open>Trans ID\<close> is \<open>"Total"\<close> is the synthetic total row.
\<close>

record sales_row =
  trans_id :: string
  sale_date :: string
  qty_sold :: "rat option"
  sales :: "rat option"
  cogs :: "rat option"
  gross_profit :: "rat option"
  disc_mkd :: "rat option"
  tax :: "rat option"
  receipt_total :: "rat option"

text \<open>The totals before rounding, the local variables \<open>total_...\<close> of the source.\<close>

record totals =
  sum_qty_sold :: int
  sum_sales :: rat
  sum_cogs :: rat
  sum_gross_profit :: rat
  sum_discounts :: rat
  sum_tax :: rat
  sum_receipts :: rat

text \<open>\<open>float(v) if pd.notna(v) else 0\<close> and \<open>int(v) if pd.notna(v) else 0\<close>\<close>

definition float_or_0 :: "rat option \<Rightarrow> rat" where
  "float_or_0 c = (case c of None \<Rightarrow> 0 | Some v \<Rightarrow> v)"

definition int_or_0 :: "rat option \<Rightarrow> int" where
  "int_or_0 c = (case c of None \<Rightarrow> 0 | Some v \<Rightarrow> py_int v)"

text \<open>
  The totals are read from the first total row if there is one and are otherwise the column
  sums over the transaction rows.  The sum of a column (\<open>Series.sum()\<close> of pandas, which
  skips empty cells) is a parameter, \<open>column_sum\<close>: the order in which the library adds the
  doubles is not fixed by the source.
\<close>

definition totals_of :: "(rat option list \<Rightarrow> rat) \<Rightarrow> sales_row list \<Rightarrow> totals" where
  "totals_of column_sum df =
     (let total_row = filter (\<lambda>r. trans_id r = ''Total'') df;
          transaction_rows = filter (\<lambda>r. trans_id r \<noteq> ''Total'') df
      in case total_row of
           row # _ \<Rightarrow>
             \<lparr>sum_qty_sold = int_or_0 (qty_sold row),
              sum_sales = float_or_0 (sales row),
              sum_cogs = float_or_0 (cogs row),
              sum_gross_profit = float_or_0 (gross_profit row),
              sum_discounts = float_or_0 (disc_mkd row),
              sum_tax = float_or_0 (tax row),
              sum_receipts = float_or_0 (receipt_total row)\<rparr>
         | [] \<Rightarrow>
             \<lparr>sum_qty_sold = py_int (column_sum (map qty_sold transaction_rows)),
              sum_sales = column_sum (map sales transaction_rows),
              sum_cogs = column_sum (map cogs transaction_rows),
              sum_gross_profit = column_sum (map gross_profit transaction_rows),
              sum_discounts = column_sum (map disc_mkd transaction_rows),
              sum_tax = column_sum (map tax transaction_rows),
              sum_receipts = column_sum (map receipt_total transaction_rows)\<rparr>)"

text \<open>
  \<open>avg_gross_margin = (total_gross_profit / total_sales) * 100\<close> if \<open>total_sales > 0\<close>, else 0.
\<close>

definition gross_margin_percent :: "rat \<Rightarrow> rat \<Rightarrow> rat" where
  "gross_margin_percent total_gross_profit total_sales =
     (if 0 < total_sales then fmul (fdiv total_gross_profit total_sales) 100 else 0)"

record daily_sales =
  store_name :: string
  report_date :: string
  total_transactions :: nat
  total_qty_sold :: int
  total_sales :: rat
  total_cogs :: rat
  total_gross_profit :: rat
  avg_gross_margin :: rat
  total_discounts :: rat
  total_tax :: rat
  total_receipts :: rat

text \<open>
  \<open>process_sales_file\<close>: \<open>None\<close> when the file cannot be read or holds no transaction row.
  \<open>parse_date\<close> stands for the date parsing of the first transaction row (with its
  fallbacks), which always yields a date.
\<close>

definition process_sales_file ::
  "(rat option list \<Rightarrow> rat) \<Rightarrow> (string \<Rightarrow> string) \<Rightarrow> (py_error + sales_row list) \<Rightarrow> string
     \<Rightarrow> daily_sales option" where
  "process_sales_file column_sum parse_date file store =
     (case file of
        Inl e \<Rightarrow> None
      | Inr df \<Rightarrow>
          (case filter (\<lambda>r. trans_id r \<noteq> ''Total'') df of
             [] \<Rightarrow> None
           | first_row # more_rows \<Rightarrow>
               (let t = totals_of column_sum df in
                Some \<lparr>store_name = store,
                      report_date = parse_date (sale_date first_row),
                      total_transactions = length (first_row # more_rows),
                      total_qty_sold = sum_qty_sold t,
                      total_sales = py_round2 (sum_sales t),
                      total_cogs = py_round2 (sum_cogs t),
                      total_gross_profit = py_round2 (sum_gross_profit t),
                      avg_gross_margin =
                        py_round2 (gross_margin_percent (sum_gross_profit t) (sum_sales t)),
                      total_discounts = py_round2 (sum_discounts t),
                      total_tax = py_round2 (sum_tax t),
                      total_receipts = py_round2 (sum_receipts t)\<rparr>)))"

text \<open>
  An example sales sheet: one transaction and the total row, with the given sales and
  gross profit.
\<close>

definition example_sales_sheet :: "rat \<Rightarrow> rat \<Rightarrow> sales_row list" where
  "example_sales_sheet s g =
     [\<lparr>trans_id = ''70001'', sale_date = ''01/15/2025'', qty_sold = Some 3, sales = Some s,
       cogs = Some (s - g), gross_profit = Some g, disc_mkd = Some 0, tax = Some 0,
       receipt_total = Some s\<rparr>,
      \<lparr>trans_id = ''Total'', sale_date = [], qty_sold = Some 3, sales = Some s,
       cogs = Some (s - g), gross_profit = Some g, disc_mkd = Some 0, tax = Some 0,
       receipt_total = Some s\<rparr>]"

section \<open>Orders, the order store and the fulfillment engine\<close>

text \<open>
  A row of the \<open>orders\<close> table, with the columns the engine reads or writes.
\<close>

record order =
  order_id :: string
  order_number :: string
  printed :: bool
  printed_at :: "string option"
  pdf_path :: "string option"
  order_location :: string
  created_at :: int

text \<open>
  The dictionary passed to \<open>update\<close>: \<open>printed\<close>, \<open>printed_at\<close> and, in the full field
  set only, \<open>pdf_path\<close>.
\<close>

record update_data =
  set_printed :: bool
  set_printed_at :: string
  set_pdf_path :: "string option"

definition apply_update :: "update_data \<Rightarrow> order \<Rightarrow> order" where
  "apply_update d o1 =
     o1\<lparr>printed := set_printed d,
        printed_at := Some (set_printed_at d),
        pdf_path := (case set_pdf_path d of None \<Rightarrow> pdf_path o1 | Some p \<Rightarrow> Some p)\<rparr>"

text \<open>
  What the fulfillment engine acts on.  The table of orders; the outcome of the update
  requests still to come (\<open>Some msg\<close>: the request raises an exception whose text is
  \<open>msg\<close> and changes nothing; no entry: it succeeds); the update requests issued so far,
  each with the order id it was filtered on; whether the query raises; the outcome of
  rendering a document for an order at a path; the outcome of sending a document to a
  printer; the two renderings of the current time; and the ids of the orders whose
  processing has been started.
\<close>

record orders_world =
  orders :: "order list"
  update_faults :: "string option list"
  update_log :: "(string \<times> update_data) list"
  select_raises :: bool
  create_pdf_order :: "order \<Rightarrow> string \<Rightarrow> bool"
  send_pdf_to_printer :: "string \<Rightarrow> string option \<Rightarrow> bool"
  now_stamp :: string
  now_iso :: string
  processing_log :: "string list"

text \<open>\<open>supabase.table("orders").update(data).eq("id", oid).execute()\<close>\<close>

definition db_update :: "orders_world \<Rightarrow> update_data \<Rightarrow> string \<Rightarrow> (py_error + unit) \<times> orders_world" where
  "db_update w d oid =
     (let w1 = w\<lparr>update_log := update_log w @ [(oid, d)],
                 update_faults := tl (update_faults w)\<rparr>
      in case update_faults w of
           Some msg # rest \<Rightarrow> (Inl (StoreError msg), w1)
         | _ \<Rightarrow>
           (Inr (), w1\<lparr>orders :=
                         map (\<lambda>x. if order_id x = oid then apply_update d x else x) (orders w)\<rparr>))"

text \<open>\<open>str(db_error)\<close>\<close>

definition error_text :: "py_error \<Rightarrow> string" where
  "error_text e =
     (case e of StoreError msg \<Rightarrow> msg | OSError \<Rightarrow> ''OSError''
      | FileNotFoundError \<Rightarrow> ''FileNotFoundError'' | PermissionError \<Rightarrow> ''PermissionError''
      | ExcelError \<Rightarrow> ''ExcelError'' | ValueError \<Rightarrow> ''ValueError'')"

text \<open>
  The two dictionaries handed to \<open>update\<close>: the full field set with the document path and
  the reduced one without it.
\<close>

definition update_data_full :: "orders_world \<Rightarrow> string \<Rightarrow> update_data" where
  "update_data_full w path =
     \<lparr>set_printed = True, set_printed_at = now_iso w, set_pdf_path = Some path\<rparr>"

definition update_data_simple :: "orders_world \<Rightarrow> update_data" where
  "update_data_simple w =
     \<lparr>set_printed = True, set_printed_at = now_iso w, set_pdf_path = None\<rparr>"

definition pdf_path_for :: "orders_world \<Rightarrow> order \<Rightarrow> string" where
  "pdf_path_for w o1 = ''order_pdfs/order_'' @ order_number o1 @ ''_'' @ now_stamp w @ ''.pdf''"

text \<open>
  \<open>print_order_pdf\<close> returns the path of the document, or \<open>None\<close> on failure, and the
  world it leaves behind.  An exception of \<open>create_pdf_order\<close> and a \<open>False\<close> result both
  end the call with \<open>None\<close>.
\<close>

definition print_order_pdf ::
  "orders_world \<Rightarrow> order \<Rightarrow> bool \<Rightarrow> string option \<Rightarrow> string option \<times> orders_world" where
  "print_order_pdf w o1 send_to_printer printer_name =
     (let path = pdf_path_for w o1 in
      if \<not> create_pdf_order w o1 path then (None, w)
      else if send_to_printer \<and> \<not> send_pdf_to_printer w path printer_name then (None, w)
      else
        (case db_update w (update_data_full w path) (order_id o1) of
           (Inr u, w1) \<Rightarrow> (Some path, w1)
         | (Inl db_error, w1) \<Rightarrow>
             if py_in ''pdf_path'' (error_text db_error) \<or> py_in ''PGRST204'' (error_text db_error)
             then (case db_update w1 (update_data_simple w1) (order_id o1) of
                     (Inr u, w2) \<Rightarrow> (Some path, w2)
                   | (Inl retry_error, w2) \<Rightarrow> (None, w2))
             else (None, w1)))"

text \<open>
  \<open>mark_order_printed\<close> of the stand-alone polling script \<open>print-orders-polling.py\<close>.
  A path that is \<open>None\<close> or empty skips the full field set.  Every exception that is not
  handled by the inner \<open>try\<close> is caught by the outer one and gives \<open>False\<close>.
\<close>

definition mark_order_printed ::
  "orders_world \<Rightarrow> string \<Rightarrow> string option \<Rightarrow> bool \<times> orders_world" where
  "mark_order_printed w oid path =
     (case path of
        Some (c # cs) \<Rightarrow>
          (case db_update w (update_data_full w (c # cs)) oid of
             (Inr u, w1) \<Rightarrow> (True, w1)
           | (Inl db_error, w1) \<Rightarrow>
               if py_in ''pdf_path'' (error_text db_error)
               then (case db_update w1 (update_data_simple w) oid of
                       (Inr u, w2) \<Rightarrow> (True, w2)
                     | (Inl e, w2) \<Rightarrow> (False, w2))
               else (False, w1))
      | _ \<Rightarrow>
          (case db_update w (update_data_simple w) oid of
             (Inr u, w1) \<Rightarrow> (True, w1)
           | (Inl e, w1) \<Rightarrow> (False, w1)))"

text \<open>
  The part of the configuration the engine reads: the keys \<open>store_name\<close> (\<open>""\<close> when
  missing), \<open>enable_printer\<close> (\<open>False\<close> when missing) and \<open>printer_name\<close>.
\<close>

record config =
  cfg_store_name :: string
  cfg_enable_printer :: bool
  cfg_printer_name :: "string option"

text \<open>\<open>.order("created_at", desc=True)\<close>: newest first.\<close>

fun insort_newest :: "order \<Rightarrow> order list \<Rightarrow> order list" where
  "insort_newest x [] = [x]"
| "insort_newest x (y # ys) =
     (if created_at y \<le> created_at x then x # y # ys else y # insort_newest x ys)"

definition newest_first :: "order list \<Rightarrow> order list" where
  "newest_first os = foldr insort_newest os []"

text \<open>
  The query of \<open>poll_for_orders_once\<close>: unprinted orders, restricted to the store's
  location or \<open>"both"\<close> when the lower-cased store name is \<open>"yakima"\<close> or \<open>"toppenish"\<close>, and
  not restricted by location otherwise.
\<close>

definition select_unprinted :: "orders_world \<Rightarrow> string \<Rightarrow> order list" where
  "select_unprinted w store =
     (if store \<in> set [''yakima'', ''toppenish'']
      then newest_first
             (filter (\<lambda>x. \<not> printed x \<and> (order_location x = store \<or> order_location x = ''both''))
                (orders w))
      else newest_first (filter (\<lambda>x. \<not> printed x) (orders w)))"

text \<open>The loop over the orders the query returned.\<close>

fun process_orders :: "orders_world \<Rightarrow> order list \<Rightarrow> bool \<Rightarrow> string option \<Rightarrow> orders_world" where
  "process_orders w [] enable pname = w"
| "process_orders w (o1 # os) enable pname =
     process_orders
       (snd (print_order_pdf (w\<lparr>processing_log := processing_log w @ [order_id o1]\<rparr>)
               o1 enable pname))
       os enable pname"

definition poll_store_name :: "config option \<Rightarrow> string" where
  "poll_store_name cfg = (case cfg of None \<Rightarrow> [] | Some c \<Rightarrow> lower (cfg_store_name c))"

definition poll_enable_printer :: "config option \<Rightarrow> bool" where
  "poll_enable_printer cfg = (case cfg of None \<Rightarrow> False | Some c \<Rightarrow> cfg_enable_printer c)"

definition poll_printer_name :: "config option \<Rightarrow> string option" where
  "poll_printer_name cfg = (case cfg of None \<Rightarrow> None | Some c \<Rightarrow> cfg_printer_name c)"

text \<open>
  \<open>poll_for_orders_once\<close> returns the number it reports and the world it leaves behind.
  A query that raises is caught by the enclosing \<open>try\<close> and gives 0.
\<close>

definition poll_for_orders_once :: "config option \<Rightarrow> orders_world \<Rightarrow> nat \<times> orders_world" where
  "poll_for_orders_once cfg w =
     (if select_raises w then (0, w)
      else
        (let data = select_unprinted w (poll_store_name cfg) in
         if data = [] then (0, w)
         else (length data,
               process_orders w data (poll_enable_printer cfg) (poll_printer_name cfg))))"

text \<open>
  An order is ready to be committed when its document was rendered and, if printing is
  enabled, the document was sent to the printer.
\<close>

definition rendered_and_dispatched :: "orders_world \<Rightarrow> bool \<Rightarrow> string option \<Rightarrow> order \<Rightarrow> bool" where
  "rendered_and_dispatched w enable pname o1 =
     (create_pdf_order w o1 (pdf_path_for w o1) \<and>
      (enable \<longrightarrow> send_pdf_to_printer w (pdf_path_for w o1) pname))"

text \<open>The schema-mismatch signal: the error text mentions \<open>pdf_path\<close> or \<open>PGRST204\<close>.\<close>

definition schema_mismatch :: "string \<Rightarrow> bool" where
  "schema_mismatch msg =
     ((\<exists>a b. msg = a @ ''pdf_path'' @ b) \<or> (\<exists>a b. msg = a @ ''PGRST204'' @ b))"

text \<open>The narrower signal of \<open>mark_order_printed\<close>: the error text mentions \<open>pdf_path\<close>.\<close>

definition mentions_pdf_path :: "string \<Rightarrow> bool" where
  "mentions_pdf_path msg = (\<exists>a b. msg = a @ ''pdf_path'' @ b)"

text \<open>
  Notions used to state what one pass of the engine preserves: two worlds agree on
  everything the engine only reads; the table with one update applied to the rows of one
  id; what one call of \<open>print_order_pdf\<close> may change; how a row of the table may differ
  after the orders \<open>os\<close> were processed; and the invariant of the processing loop.
\<close>

definition same_env :: "orders_world \<Rightarrow> orders_world \<Rightarrow> bool" where
  "same_env w w' =
     (create_pdf_order w' = create_pdf_order w \<and> send_pdf_to_printer w' = send_pdf_to_printer w \<and>
      now_stamp w' = now_stamp w \<and> now_iso w' = now_iso w \<and> select_raises w' = select_raises w)"

definition touch :: "string \<Rightarrow> update_data \<Rightarrow> order list \<Rightarrow> order list" where
  "touch oid d xs = map (\<lambda>x. if order_id x = oid then apply_update d x else x) xs"

definition step_ok :: "orders_world \<Rightarrow> bool \<Rightarrow> string option \<Rightarrow> order \<Rightarrow> orders_world \<Rightarrow> bool" where
  "step_ok w en pn o1 w' =
     (same_env w w' \<and> processing_log w' = processing_log w \<and>
      (\<exists>new. update_log w' = update_log w @ new \<and>
             (\<forall>e\<in>set new. fst e = order_id o1 \<and> rendered_and_dispatched w en pn o1)) \<and>
      (orders w' = orders w \<or>
       (rendered_and_dispatched w en pn o1 \<and> (\<exists>d. orders w' = touch (order_id o1) d (orders w)))))"

definition kept :: "orders_world \<Rightarrow> bool \<Rightarrow> string option \<Rightarrow> order list \<Rightarrow> order \<Rightarrow> order \<Rightarrow> bool" where
  "kept w en pn os x x' =
     (order_id x' = order_id x \<and> order_location x' = order_location x \<and>
      created_at x' = created_at x \<and>
      (x' = x \<or> (\<exists>s\<in>set os. order_id x = order_id s \<and> rendered_and_dispatched w en pn s)))"

definition poll_inv :: "orders_world \<Rightarrow> bool \<Rightarrow> string option \<Rightarrow> order list \<Rightarrow> orders_world \<Rightarrow> bool" where
  "poll_inv w en pn os w' =
     (same_env w w' \<and> processing_log w' = processing_log w @ map order_id os \<and>
      (\<exists>new. update_log w' = update_log w @ new \<and>
             (\<forall>e\<in>set new. \<exists>s\<in>set os. fst e = order_id s \<and> rendered_and_dispatched w en pn s)) \<and>
      list_all2 (kept w en pn os) (orders w) (orders w'))"

section \<open>Example inputs\<close>

text \<open>
  A converter that knows the numerals \<open>45\<close> and \<open>7\<close> and no other text; the other columns
  of a row, with a gross margin of the caller's choice; a sheet with both markers and one
  row between them, as it is read and with its stock converted; the sheet with a product
  whose margin is \<open>45%\<close>, the marker quantities being chosen by the caller; the sheet
  whose only row besides the markers lacks a SKU; the sheet whose product has a gross
  margin that is no numeral; a world with two candidate files, both removable, and a
  file that is no candidate.
\<close>

definition example_py :: py_builtins where
  "example_py =
     \<lparr>float_of_text = (\<lambda>s. if s = ''45'' then Some 45 else if s = ''7'' then Some 7 else None),
      int_of_text = (\<lambda>s. if s = ''45'' then Some 45 else if s = ''7'' then Some 7 else None)\<rparr>"

definition example_cells :: "cell \<Rightarrow> other_cells" where
  "example_cells margin =
     \<lparr>vendor = Some ''Acme'', brand = None, price = Num 10, cost = Text ''7'',
      committed = NaN, open_stock = Num 4, qty_on_order = Num 0, gross_margin = margin,
      total_retail = Num 40, total_cost = Num 28\<rparr>"

definition example_sheet_row :: "string \<Rightarrow> string option \<Rightarrow> int \<Rightarrow> cell \<Rightarrow> sheet_row" where
  "example_sheet_row name code stock margin =
     \<lparr>cell_product_name = Some name, cell_sku = code,
      cell_total_stock = Num (of_int stock), cell_other = example_cells margin\<rparr>"

definition example_row :: "string \<Rightarrow> string option \<Rightarrow> int \<Rightarrow> cell \<Rightarrow> other_cells inv_row" where
  "example_row name code stock margin =
     \<lparr>product_name = Some name, sku = code, total_stock = Some stock,
      other_columns = example_cells margin\<rparr>"

definition sheet_with :: "int \<Rightarrow> int \<Rightarrow> string option \<Rightarrow> cell \<Rightarrow> sheet_row list" where
  "sheet_with t y code margin =
     [example_sheet_row ''Toppenish Inventory'' (Some ''99999'') t NaN,
      example_sheet_row ''Widget'' code 4 margin,
      example_sheet_row ''Yakima Inventory'' (Some ''9999'') y NaN]"

definition rows_with :: "int \<Rightarrow> int \<Rightarrow> string option \<Rightarrow> cell \<Rightarrow> other_cells inv_row list" where
  "rows_with t y code margin =
     [example_row ''Toppenish Inventory'' (Some ''99999'') t NaN,
      example_row ''Widget'' code 4 margin,
      example_row ''Yakima Inventory'' (Some ''9999'') y NaN]"

definition example_sheet :: "int \<Rightarrow> int \<Rightarrow> sheet_row list" where
  "example_sheet t y = sheet_with t y (Some ''1001'') (Text ''45%'')"

definition markers_only_sheet :: "sheet_row list" where
  "markers_only_sheet = sheet_with 1 0 None (Text ''45%'')"

definition bad_margin_sheet :: "sheet_row list" where
  "bad_margin_sheet = sheet_with 1 0 (Some ''1001'') (Text ''abc%'')"

definition example_world :: "sheet_row list \<Rightarrow> bool \<Rightarrow> nat world" where
  "example_world sheet reachable =
     \<lparr>folder = Some [(''inventory_old.xlsx'', 1), (''inventory_new.xlsx'', 2), (''readme.txt'', 3)],
      removable = (\<lambda>f. True),
      read_excel = (\<lambda>f. if f = ''inventory_new.xlsx'' then Inr sheet else Inl ExcelError),
      store_reachable = reachable,
      inventory_table = Map.empty,
      upsert_requests = []\<rparr>"

definition example_order :: "string \<Rightarrow> string \<Rightarrow> int \<Rightarrow> order" where
  "example_order oid location t =
     \<lparr>order_id = oid, order_number = ''N'' @ oid, printed = False, printed_at = None,
      pdf_path = None, order_location = location, created_at = t\<rparr>"

text \<open>
  A world of orders in which every document renders and the printer accepts exactly the
  documents whose path satisfies \<open>printer\<close>.
\<close>

definition example_orders_world ::
  "order list \<Rightarrow> string option list \<Rightarrow> (string \<Rightarrow> bool) \<Rightarrow> orders_world" where
  "example_orders_world os faults printer =
     \<lparr>orders = os, update_faults = faults, update_log = [], select_raises = False,
      create_pdf_order = (\<lambda>o1 path. True),
      send_pdf_to_printer = (\<lambda>path pname. printer path),
      now_stamp = ''20250101_120000'', now_iso = ''2025-01-01T12:00:00'',
      processing_log = []\<rparr>"

definition example_config :: "string \<Rightarrow> bool \<Rightarrow> config option" where
  "example_config store enable =
     Some \<lparr>cfg_store_name = store, cfg_enable_printer = enable,
           cfg_printer_name = Some ''Canon TR4700 series''\<rparr>"

section \<open>Properties of the string operations\<close>

lemma startswith_iff: "startswith s p \<longleftrightarrow> (\<exists>b. s = p @ b)"
  by (induction s p rule: startswith.induct) auto

lemma endswith_iff: "endswith s p \<longleftrightarrow> (\<exists>a. s = a @ p)"
proof -
  have "endswith s p \<longleftrightarrow> (\<exists>b. rev s = rev p @ b)"
    by (simp add: endswith_def startswith_iff)
  also have "\<dots> \<longleftrightarrow> (\<exists>a. s = a @ p)"
  proof
    assume "\<exists>b. rev s = rev p @ b"
    then obtain b where "rev s = rev p @ b" ..
    then have "s = rev b @ p" by (metis rev_append rev_rev_ident)
    then show "\<exists>a. s = a @ p" ..
  next
    assume "\<exists>a. s = a @ p"
    then obtain a where "s = a @ p" ..
    then have "rev s = rev p @ rev a" by simp
    then show "\<exists>b. rev s = rev p @ b" ..
  qed
  finally show ?thesis .
qed

lemma py_in_iff: "py_in p s \<longleftrightarrow> (\<exists>a b. s = a @ p @ b)"
proof (induction s)
  case Nil
  show ?case by auto
next
  case (Cons c cs)
  show ?case
  proof
    assume "py_in p (c # cs)"
    then consider "startswith (c # cs) p" | "py_in p cs" by auto
    then show "\<exists>a b. c # cs = a @ p @ b"
    proof cases
      case 1
      then obtain b where "c # cs = p @ b" by (auto simp: startswith_iff)
      then have "c # cs = [] @ p @ b" by simp
      then show ?thesis by blast
    next
      case 2
      then obtain a b where "cs = a @ p @ b" using Cons.IH by blast
      then have "c # cs = (c # a) @ p @ b" by simp
      then show ?thesis by blast
    qed
  next
    assume "\<exists>a b. c # cs = a @ p @ b"
    then obtain a b where ab: "c # cs = a @ p @ b" by blast
    show "py_in p (c # cs)"
    proof (cases a)
      case Nil
      with ab have "startswith (c # cs) p" by (auto simp: startswith_iff)
      then show ?thesis by simp
    next
      case (Cons x a')
      with ab have "cs = a' @ p @ b" by simp
      then have "py_in p cs" using Cons.IH by blast
      then show ?thesis by simp
    qed
  qed
qed

section \<open>Properties of the file locator\<close>

lemma scan_folder_names:
  "set names \<subseteq> fst ` set l \<Longrightarrow>
   map fst (scan_folder (Some l) pat names acc) = map fst acc @ filter (name_matches pat) names"
proof (induction names arbitrary: acc)
  case Nil
  show ?case by simp
next
  case (Cons n ns)
  then have "n \<in> fst ` set l" by simp
  then obtain m where "map_of l n = Some m"
    by (metis domD dom_map_of_conv_image_fst)
  then have "os_getmtime (Some l) n = Inr m" by (simp add: os_getmtime_def)
  with Cons show ?case by simp
qed

lemma scan_folder_entry:
  "e \<in> set (scan_folder d pat names acc) \<Longrightarrow>
   e \<in> set acc \<or> (fst e \<in> set names \<and> name_matches pat (fst e) \<and> os_getmtime d (fst e) = Inr (fst (snd e)))"
proof (induction names arbitrary: acc)
  case Nil
  then show ?case by simp
next
  case (Cons n ns)
  show ?case
  proof (cases "name_matches pat n")
    case False
    with Cons show ?thesis by auto
  next
    case True
    show ?thesis
    proof (cases "os_getmtime d n")
      case (Inl err)
      with True Cons.prems show ?thesis by simp
    next
      case (Inr m)
      with True Cons.prems have "e \<in> set (scan_folder d pat ns (acc @ [(n, m, n)]))" by simp
      from Cons.IH[OF this] Inr True show ?thesis by auto
    qed
  qed
qed

lemma set_insort_desc: "set (insort_desc x ys) = insert x (set ys)"
  by (induction ys) auto

lemma set_sort_desc: "set (sort_desc xs) = set xs"
  by (induction xs) (auto simp: sort_desc_def set_insort_desc)

lemma sorted_insort_desc:
  "sorted_wrt (\<lambda>a b. fst (snd b) \<le> fst (snd a)) ys \<Longrightarrow>
   sorted_wrt (\<lambda>a b. fst (snd b) \<le> fst (snd a)) (insort_desc x ys)"
  by (induction ys) (auto simp: set_insort_desc)

lemma sorted_sort_desc: "sorted_wrt (\<lambda>a b. fst (snd b) \<le> fst (snd a)) (sort_desc xs)"
  by (induction xs) (auto simp: sort_desc_def sorted_insort_desc)

lemma sort_desc_head_max:
  assumes "sort_desc xs = f # fs" and "x \<in> set xs"
  shows "fst (snd x) \<le> fst (snd f)"
proof -
  have "x \<in> set (f # fs)" using assms set_sort_desc[of xs] by simp
  moreover have "sorted_wrt (\<lambda>a b. fst (snd b) \<le> fst (snd a)) (f # fs)"
    using sorted_sort_desc[of xs] assms(1) by simp
  ultimately show ?thesis by auto
qed

lemma delete_all_Some:
  "delete_all_inventory_files rm (Some l) fs =
     Some (filter (\<lambda>e. \<not> (fst e \<in> set fs \<and> rm (fst e))) l)"
proof (induction fs arbitrary: l)
  case Nil
  show ?case by simp
next
  case (Cons f fs)
  show ?case
  proof (cases "f \<in> fst ` set l \<and> rm f")
    case True
    have "filter (\<lambda>e. \<not> (fst e \<in> set fs \<and> rm (fst e))) (filter (\<lambda>e. fst e \<noteq> f) l)
            = filter (\<lambda>e. \<not> (fst e \<in> set (f # fs) \<and> rm (fst e))) l"
      using True by (auto intro!: filter_cong simp: filter_filter)
    with True show ?thesis by (simp add: os_remove_def Cons.IH)
  next
    case False
    then have "filter (\<lambda>e. \<not> (fst e \<in> set (f # fs) \<and> rm (fst e))) l
                 = filter (\<lambda>e. \<not> (fst e \<in> set fs \<and> rm (fst e))) l"
      by (auto intro!: filter_cong)
    moreover have "\<exists>err. os_remove rm (Some l) f = Inl err"
      using False by (auto simp: os_remove_def)
    ultimately show ?thesis by (auto simp: Cons.IH)
  qed
qed

lemma delete_all_None: "delete_all_inventory_files rm None fs = None"
  by (induction fs) (auto simp: os_remove_def)

lemma find_all_names:
  "map fst (find_all_inventory_files (Some l) pat) = filter (name_matches pat) (map fst l)"
  using scan_folder_names[of "map fst l" l pat "[]"]
  by (simp add: find_all_inventory_files_def os_listdir_def)

lemma find_all_None: "find_all_inventory_files None pat = []"
  by (simp add: find_all_inventory_files_def os_listdir_def)

lemma find_all_entry:
  assumes "e \<in> set (find_all_inventory_files d pat)"
  shows "os_getmtime d (fst e) = Inr (fst (snd e))"
proof (cases d)
  case None
  with assms show ?thesis by (simp add: find_all_None)
next
  case (Some l)
  with assms have "e \<in> set (scan_folder d pat (map fst l) [])"
    by (simp add: find_all_inventory_files_def os_listdir_def)
  from scan_folder_entry[OF this] show ?thesis by simp
qed

lemma latest_all_files:
  "set (snd (get_latest_inventory_file d pat)) = fst ` set (find_all_inventory_files d pat)"
proof (cases "sort_desc (find_all_inventory_files d pat)")
  case Nil
  then have "set (find_all_inventory_files d pat) = {}"
    using set_sort_desc[of "find_all_inventory_files d pat"] by simp
  with Nil show ?thesis by (simp add: get_latest_inventory_file_def)
next
  case (Cons f fs)
  then have "set (f # fs) = set (find_all_inventory_files d pat)"
    using set_sort_desc[of "find_all_inventory_files d pat"] by simp
  then have "fst ` set (f # fs) = fst ` set (find_all_inventory_files d pat)" by simp
  with Cons show ?thesis by (simp add: get_latest_inventory_file_def)
qed

lemma latest_candidates:
  "set (snd (get_latest_inventory_file (Some l) pat)) = {n \<in> fst ` set l. name_matches pat n}"
proof -
  have "fst ` set (find_all_inventory_files (Some l) pat)
          = set (filter (name_matches pat) (map fst l))"
    using find_all_names[of l pat] by (metis set_map)
  then show ?thesis by (auto simp: latest_all_files)
qed

lemma latest_is_newest:
  assumes "get_latest_inventory_file d pat = (Some a, all_files)"
  shows "a \<in> set all_files \<and>
         (\<exists>m. os_getmtime d a = Inr m \<and>
              (\<forall>c\<in>set all_files. \<exists>m'. os_getmtime d c = Inr m' \<and> m' \<le> m))"
proof -
  obtain f fs where srt: "sort_desc (find_all_inventory_files d pat) = f # fs"
    and a: "a = fst f" and al: "all_files = map fst (f # fs)"
    using assms by (auto simp: get_latest_inventory_file_def split: list.splits)
  have mem: "set (f # fs) = set (find_all_inventory_files d pat)"
    using set_sort_desc[of "find_all_inventory_files d pat"] srt by simp
  then have "f \<in> set (find_all_inventory_files d pat)" by (metis list.set_intros(1))
  then have fm: "os_getmtime d a = Inr (fst (snd f))" using a find_all_entry by blast
  have "\<exists>m'. os_getmtime d c = Inr m' \<and> m' \<le> fst (snd f)" if "c \<in> set all_files" for c
  proof -
    from that al have "c \<in> fst ` set (f # fs)" by simp
    then obtain e where e: "e \<in> set (f # fs)" and c: "c = fst e" by blast
    then have e': "e \<in> set (find_all_inventory_files d pat)" using mem by blast
    then have "os_getmtime d c = Inr (fst (snd e))" using c find_all_entry by blast
    moreover have "fst (snd e) \<le> fst (snd f)" using sort_desc_head_max[OF srt e'] .
    ultimately show ?thesis by simp
  qed
  with fm a al show ?thesis by auto
qed

lemma latest_none:
  "set (find_all_inventory_files d pat) = {} \<Longrightarrow> get_latest_inventory_file d pat = (None, [])"
  by (simp add: get_latest_inventory_file_def sort_desc_def)

lemma latest_Some_folder:
  assumes "get_latest_inventory_file d pat = (Some a, all_files)"
  shows "\<exists>l. d = Some l"
proof (cases d)
  case None
  with assms show ?thesis
    by (simp add: get_latest_inventory_file_def find_all_None sort_desc_def)
next
  case (Some l)
  then show ?thesis by simp
qed

text \<open>
  Claim C6.  For every state of the watch folder, the candidate set returned by the file
  locator is exactly the set of files of the folder whose name contains the configured
  pattern and ends with \<open>.xlsx\<close>; whenever an authoritative file is returned it is one
  of the candidates and no candidate has a greater modification time; one is returned
  whenever a candidate exists; and when there is none (also when the folder cannot be
  listed) the result is the empty result \<open>(None, [])\<close>, a value and not an exception.
\<close>

theorem file_locator_result:
  "set (snd (get_latest_inventory_file watch_folder file_pattern)) =
      {n \<in> folder_files watch_folder.
         (\<exists>a b. n = a @ file_pattern @ b) \<and> (\<exists>a. n = a @ ''.xlsx'')}
   \<and> (\<forall>latest all_files.
         get_latest_inventory_file watch_folder file_pattern = (Some latest, all_files) \<longrightarrow>
           latest \<in> set all_files \<and>
           (\<exists>m. os_getmtime watch_folder latest = Inr m \<and>
                (\<forall>c\<in>set all_files. \<exists>m'. os_getmtime watch_folder c = Inr m' \<and> m' \<le> m)))
   \<and> ((\<exists>n \<in> folder_files watch_folder.
          (\<exists>a b. n = a @ file_pattern @ b) \<and> (\<exists>a. n = a @ ''.xlsx''))
        \<longrightarrow> (\<exists>latest. fst (get_latest_inventory_file watch_folder file_pattern) = Some latest))
   \<and> (\<not> (\<exists>n \<in> folder_files watch_folder.
          (\<exists>a b. n = a @ file_pattern @ b) \<and> (\<exists>a. n = a @ ''.xlsx''))
        \<longrightarrow> get_latest_inventory_file watch_folder file_pattern = (None, []))"
proof -
  define C where "C = {n \<in> folder_files watch_folder.
         (\<exists>a b. n = a @ file_pattern @ b) \<and> (\<exists>a. n = a @ ''.xlsx'')}"
  define r where "r = get_latest_inventory_file watch_folder file_pattern"
  have cand: "set (snd r) = C"
  proof (cases watch_folder)
    case None
    then show ?thesis
      by (simp add: r_def C_def latest_all_files find_all_None folder_files_def)
  next
    case (Some l)
    then show ?thesis
      by (simp add: r_def C_def latest_candidates folder_files_def name_matches_def
            py_in_iff endswith_iff)
  qed
  have newest: "\<forall>latest all_files. r = (Some latest, all_files) \<longrightarrow>
           latest \<in> set all_files \<and>
           (\<exists>m. os_getmtime watch_folder latest = Inr m \<and>
                (\<forall>c\<in>set all_files. \<exists>m'. os_getmtime watch_folder c = Inr m' \<and> m' \<le> m))"
    unfolding r_def using latest_is_newest by blast
  have some: "\<exists>latest. fst r = Some latest" if "C \<noteq> {}"
  proof -
    from that cand have "set (snd r) \<noteq> {}" by simp
    then have "snd r \<noteq> []" by (metis set_empty)
    then show ?thesis
      by (auto simp: r_def get_latest_inventory_file_def split: list.splits)
  qed
  have none: "r = (None, [])" if "C = {}"
  proof -
    from that cand have "set (snd r) = {}" by simp
    then have "fst ` set (find_all_inventory_files watch_folder file_pattern) = {}"
      by (simp only: r_def latest_all_files)
    then have "set (find_all_inventory_files watch_folder file_pattern) = {}"
      by (simp only: image_is_empty)
    then show ?thesis unfolding r_def by (rule latest_none)
  qed
  have C_ex: "C \<noteq> {} \<longleftrightarrow> (\<exists>n \<in> folder_files watch_folder.
          (\<exists>a b. n = a @ file_pattern @ b) \<and> (\<exists>a. n = a @ ''.xlsx''))"
    unfolding C_def by blast
  from cand newest some none C_ex show ?thesis
    unfolding C_def[symmetric] r_def[symmetric] by blast
qed

theorem file_locator_result_witness:
  "get_latest_inventory_file
     (Some [(''inventory_a.xlsx'', 5::nat), (''notes.txt'', 9), (''inventory_b.xlsx'', 7),
            (''inventory.csv'', 11)]) ''inventory''
     = (Some ''inventory_b.xlsx'', [''inventory_b.xlsx'', ''inventory_a.xlsx''])
   \<and> ''inventory_b.xlsx'' \<in> set [''inventory_b.xlsx'', ''inventory_a.xlsx'']
   \<and> (\<exists>m. os_getmtime
            (Some [(''inventory_a.xlsx'', 5::nat), (''notes.txt'', 9), (''inventory_b.xlsx'', 7),
                   (''inventory.csv'', 11)]) ''inventory_b.xlsx'' = Inr m
          \<and> (\<forall>c\<in>set [''inventory_b.xlsx'', ''inventory_a.xlsx''].
                \<exists>m'. os_getmtime
                  (Some [(''inventory_a.xlsx'', 5::nat), (''notes.txt'', 9),
                         (''inventory_b.xlsx'', 7), (''inventory.csv'', 11)]) c = Inr m'
                  \<and> m' \<le> m))"
proof -
  have run: "get_latest_inventory_file
     (Some [(''inventory_a.xlsx'', 5::nat), (''notes.txt'', 9), (''inventory_b.xlsx'', 7),
            (''inventory.csv'', 11)]) ''inventory''
     = (Some ''inventory_b.xlsx'', [''inventory_b.xlsx'', ''inventory_a.xlsx''])"
    by code_simp
  from file_locator_result[of "Some [(''inventory_a.xlsx'', 5::nat), (''notes.txt'', 9),
      (''inventory_b.xlsx'', 7), (''inventory.csv'', 11)]" "''inventory''"] run
  show ?thesis by blast
qed

section \<open>Properties of the inventory validator\<close>

lemma marker_qty_Cons:
  "marker_qty P (r # rs) =
     (case marker_qty P rs of None \<Rightarrow> (if P r then Some (row_qty r) else None) | Some q \<Rightarrow> Some q)"
  by (simp add: marker_qty_def split: list.splits)

lemma scan_markers_eq:
  "scan_markers (t, y) df =
     (case toppenish_qty df of None \<Rightarrow> t | Some q \<Rightarrow> Some q,
      case yakima_qty df of None \<Rightarrow> y | Some q \<Rightarrow> Some q)"
proof (induction df arbitrary: t y)
  case Nil
  show ?case by (simp add: toppenish_qty_def yakima_qty_def marker_qty_def)
next
  case (Cons r rs)
  show ?case
    by (simp add: Cons.IH toppenish_qty_def yakima_qty_def marker_qty_Cons split: option.splits)
qed

lemma validate_table:
  "validate_inventory_file df =
     (case (toppenish_qty df, yakima_qty df) of
        (Some t, Some y) \<Rightarrow> if t = 1 \<and> y = 0 then Valid else Wrong_file
      | _ \<Rightarrow> No_marker)"
  by (simp add: validate_inventory_file_def scan_markers_eq split: option.splits)

text \<open>
  A sheet that holds the secondary (Yakima) marker with quantity 1 and no primary
  (Toppenish) marker: the validator checks for a missing marker first and answers
  \<open>No_marker\<close>, not \<open>Wrong_file\<close>.  So "secondary quantity 1 gives wrong source for
  any state of the primary marker" does not hold when that state is "absent".
\<close>

theorem validate_secondary_one_counterexample:
  "yakima_qty
     [\<lparr>product_name = Some ''Yakima Inventory'', sku = Some ''9999'',
       total_stock = Some 1, other_columns = ()\<rparr>] = Some 1
   \<and> validate_inventory_file
     [\<lparr>product_name = Some ''Yakima Inventory'', sku = Some ''9999'',
       total_stock = Some 1, other_columns = ()\<rparr>] = No_marker
   \<and> validate_inventory_file
     [\<lparr>product_name = Some ''Yakima Inventory'', sku = Some ''9999'',
       total_stock = Some 1, other_columns = ()\<rparr>] \<noteq> Wrong_file"
  by code_simp

text \<open>
  Claim C2, amended.  The verdict is \<open>Valid\<close> exactly when the primary marker (name
  containing "toppenish", SKU "99999") carries quantity 1 and the secondary marker (name
  containing "yakima", SKU "9999") carries quantity 0; it is \<open>Wrong_file\<close> whenever the
  secondary marker carries quantity 1 and the primary marker is present, whatever its
  quantity; it is \<open>No_marker\<close> when either marker is absent; and every other combination
  of quantities of two present markers gives \<open>Wrong_file\<close>.
\<close>

theorem validate_decision_table:
  "(validate_inventory_file df = Valid \<longleftrightarrow>
      toppenish_qty df = Some 1 \<and> yakima_qty df = Some 0)
   \<and> (toppenish_qty df \<noteq> None \<and> yakima_qty df = Some 1 \<longrightarrow>
        validate_inventory_file df = Wrong_file)
   \<and> (toppenish_qty df = None \<or> yakima_qty df = None \<longrightarrow>
        validate_inventory_file df = No_marker)
   \<and> (toppenish_qty df \<noteq> None \<and> yakima_qty df \<noteq> None \<and>
        \<not> (toppenish_qty df = Some 1 \<and> yakima_qty df = Some 0) \<longrightarrow>
        validate_inventory_file df = Wrong_file)"
  by (auto simp: validate_table split: option.splits)

theorem validate_decision_table_witness:
  "validate_inventory_file
     [\<lparr>product_name = Some ''Toppenish Inventory'', sku = Some ''99999'',
       total_stock = Some 1, other_columns = ()\<rparr>,
      \<lparr>product_name = Some ''Widget'', sku = Some ''1001'',
       total_stock = Some 4, other_columns = ()\<rparr>,
      \<lparr>product_name = Some ''Yakima Inventory'', sku = Some ''9999'',
       total_stock = Some 0, other_columns = ()\<rparr>] = Valid
   \<and> validate_inventory_file
     [\<lparr>product_name = Some ''Toppenish Inventory'', sku = Some ''99999'',
       total_stock = Some 0, other_columns = ()\<rparr>,
      \<lparr>product_name = Some ''Yakima Inventory'', sku = Some ''9999'',
       total_stock = Some 1, other_columns = ()\<rparr>] = Wrong_file
   \<and> validate_inventory_file
     [\<lparr>product_name = Some ''Widget'', sku = Some ''1001'',
       total_stock = Some 4, other_columns = ()\<rparr>] = No_marker"
proof -
  define df1 :: "unit inv_row list" where "df1 =
     [\<lparr>product_name = Some ''Toppenish Inventory'', sku = Some ''99999'',
       total_stock = Some 1, other_columns = ()\<rparr>,
      \<lparr>product_name = Some ''Widget'', sku = Some ''1001'',
       total_stock = Some 4, other_columns = ()\<rparr>,
      \<lparr>product_name = Some ''Yakima Inventory'', sku = Some ''9999'',
       total_stock = Some 0, other_columns = ()\<rparr>]"
  define df2 :: "unit inv_row list" where "df2 =
     [\<lparr>product_name = Some ''Toppenish Inventory'', sku = Some ''99999'',
       total_stock = Some 0, other_columns = ()\<rparr>,
      \<lparr>product_name = Some ''Yakima Inventory'', sku = Some ''9999'',
       total_stock = Some 1, other_columns = ()\<rparr>]"
  define df3 :: "unit inv_row list" where "df3 =
     [\<lparr>product_name = Some ''Widget'', sku = Some ''1001'',
       total_stock = Some 4, other_columns = ()\<rparr>]"
  have a: "toppenish_qty df1 = Some 1 \<and> yakima_qty df1 = Some 0"
    unfolding df1_def by code_simp
  have b: "toppenish_qty df2 \<noteq> None \<and> yakima_qty df2 = Some 1"
    unfolding df2_def by code_simp
  have c: "toppenish_qty df3 = None"
    unfolding df3_def by code_simp
  have r1: "validate_inventory_file df1 = Valid"
    using a validate_decision_table[of df1] by blast
  have r2: "validate_inventory_file df2 = Wrong_file"
    using b validate_decision_table[of df2] by blast
  have r3: "validate_inventory_file df3 = No_marker"
    using c validate_decision_table[of df3] by blast
  show ?thesis
    using r1 r2 r3 unfolding df1_def df2_def df3_def by (intro conjI)
qed

section \<open>Properties of the inventory synchronizer\<close>

lemma delete_candidates:
  assumes "get_latest_inventory_file d pat = (Some latest, all_files)"
  shows "folder_files (delete_all_inventory_files rm d all_files)
           = {n \<in> folder_files d. \<not> (name_matches pat n \<and> rm n)}"
proof -
  obtain l where d: "d = Some l" using latest_Some_folder[OF assms] by blast
  have "set all_files = {n \<in> fst ` set l. name_matches pat n}"
    using latest_candidates[of l pat] assms d by simp
  then show ?thesis
    by (auto simp: d delete_all_Some folder_files_def)
qed

lemma delete_removable_candidates:
  assumes "get_latest_inventory_file d pat = (Some latest, all_files)"
    and "\<forall>f\<in>set all_files. rm f"
  shows "folder_files (delete_all_inventory_files rm d all_files)
           = {n \<in> folder_files d. \<not> name_matches pat n}"
proof -
  obtain l where d: "d = Some l" using latest_Some_folder[OF assms(1)] by blast
  have c: "set all_files = {n \<in> fst ` set l. name_matches pat n}"
    using latest_candidates[of l pat] assms(1) d by simp
  have "{n \<in> folder_files d. \<not> (name_matches pat n \<and> rm n)}
          = {n \<in> folder_files d. \<not> name_matches pat n}"
    using assms(2) c by (auto simp: d folder_files_def)
  with delete_candidates[OF assms(1)] show ?thesis by simp
qed

lemma upsert_reachable:
  "store_reachable w \<Longrightarrow>
   upsert w records =
     (Inr (), w\<lparr>upsert_requests := upsert_requests w @ [records],
               inventory_table := upsert_rows records (inventory_table w)\<rparr>)"
  by (simp add: upsert_def)

lemma upsert_unreachable:
  "\<not> store_reachable w \<Longrightarrow>
   upsert w records =
     (Inl (StoreError ''unreachable''), w\<lparr>upsert_requests := upsert_requests w @ [records]\<rparr>)"
  by (simp add: upsert_def)

lemma sync_committed:
  assumes "get_latest_inventory_file (folder w) pat = (Some latest, all_files)"
    and "read_excel w latest = Inr sheet"
    and "read_stock py sheet = Inr df"
    and "validate_inventory_file df = Valid"
    and "clean_data py (filter (\<lambda>r. \<not> is_marker_row r) df) = Inr records"
    and "records \<noteq> []"
    and "store_reachable w"
  shows "sync_inventory py w pat =
     (True, w\<lparr>upsert_requests := upsert_requests w @ [records],
              inventory_table := upsert_rows records (inventory_table w),
              folder := delete_all_inventory_files (removable w) (folder w) all_files\<rparr>)"
  using assms by (simp add: sync_inventory_def upsert_reachable)

lemma sync_rejected:
  assumes "get_latest_inventory_file (folder w) pat = (Some latest, all_files)"
    and "read_excel w latest = Inr sheet"
    and "read_stock py sheet = Inr df"
    and "validate_inventory_file df \<noteq> Valid"
  shows "sync_inventory py w pat =
     (False, w\<lparr>folder := delete_all_inventory_files (removable w) (folder w) all_files\<rparr>)"
  using assms by (cases "validate_inventory_file df") (simp_all add: sync_inventory_def)

lemma sync_upsert_raises:
  assumes "get_latest_inventory_file (folder w) pat = (Some latest, all_files)"
    and "read_excel w latest = Inr sheet"
    and "read_stock py sheet = Inr df"
    and "validate_inventory_file df = Valid"
    and "clean_data py (filter (\<lambda>r. \<not> is_marker_row r) df) = Inr records"
    and "records \<noteq> []"
    and "\<not> store_reachable w"
  shows "sync_inventory py w pat =
     (False, w\<lparr>upsert_requests := upsert_requests w @ [records]\<rparr>)"
  using assms by (simp add: sync_inventory_def upsert_unreachable)

lemma sync_conversion_raises:
  assumes "get_latest_inventory_file (folder w) pat = (Some latest, all_files)"
    and "read_excel w latest = Inr sheet"
    and "read_stock py sheet = Inl e \<or>
         (\<exists>df e'. read_stock py sheet = Inr df \<and> validate_inventory_file df = Valid \<and>
            clean_data py (filter (\<lambda>r. \<not> is_marker_row r) df) = Inl e')"
  shows "sync_inventory py w pat = (False, w)"
  using assms by (auto simp: sync_inventory_def)

lemma example_latest:
  "get_latest_inventory_file (folder (example_world sheet r)) ''inventory''
     = (Some ''inventory_new.xlsx'', [''inventory_new.xlsx'', ''inventory_old.xlsx''])"
  by code_simp

lemma example_read:
  "read_excel (example_world sheet r) ''inventory_new.xlsx'' = Inr sheet"
  by (simp add: example_world_def)

lemma example_removable: "\<forall>f\<in>set fs. removable (example_world sheet r) f"
  by (simp add: example_world_def)

lemma example_stock:
  "read_stock example_py (sheet_with t y code margin) = Inr (rows_with t y code margin)"
  by (simp add: sheet_with_def rows_with_def example_sheet_row_def example_row_def
        stock_cell_def py_int_def)

lemma rows_valid: "validate_inventory_file (rows_with 1 0 code margin) = Valid"
  by code_simp

lemma rows_wrong: "validate_inventory_file (rows_with 0 1 code margin) = Wrong_file"
  by code_simp

lemma rows_filtered:
  "filter (\<lambda>r. \<not> is_marker_row r) (rows_with t y code margin) = [example_row ''Widget'' code 4 margin]"
  by code_simp

lemma widget_sku: "clean_sku (example_row ''Widget'' (Some ''1001'') 4 margin) = Some ''1001''"
  by code_simp

lemma widget_record:
  "\<exists>rec1. clean_data example_py [example_row ''Widget'' (Some ''1001'') 4 (Text ''45%'')] = Inr [rec1]"
  by (simp add: clean_row_def has_sku_def widget_sku[unfolded example_row_def example_cells_def]
        gross_margin_cell_def float_cell_def
        int_cell_def example_py_def example_row_def example_cells_def Let_def)

lemma loose_record:
  "clean_data example_py [example_row ''Widget'' None 4 (Text ''45%'')] = Inr []"
  by (simp add: clean_row_def has_sku_def clean_sku_def gross_margin_cell_def float_cell_def
        int_cell_def example_py_def example_row_def example_cells_def Let_def)

lemma bad_margin_record:
  "clean_data example_py [example_row ''Widget'' (Some ''1001'') 4 (Text ''abc%'')] = Inl ValueError"
  by (simp add: clean_row_def gross_margin_cell_def example_py_def example_row_def
        example_cells_def Let_def)


lemma example_records:
  "\<exists>rec1. clean_data example_py (filter (\<lambda>r. \<not> is_marker_row r)
       (rows_with t y (Some ''1001'') (Text ''45%''))) = Inr [rec1]"
  by (simp only: rows_filtered widget_record)

lemma markers_only_records:
  "clean_data example_py (filter (\<lambda>r. \<not> is_marker_row r)
       (rows_with t y None (Text ''45%''))) = Inr []"
  by (simp only: rows_filtered loose_record)

lemma bad_margin_raises:
  "clean_data example_py (filter (\<lambda>r. \<not> is_marker_row r)
       (rows_with t y (Some ''1001'') (Text ''abc%''))) = Inl ValueError"
  by (simp only: rows_filtered bad_margin_record)

text \<open>
  A sheet with both markers in order and a product whose gross margin is the text
  \<open>abc%\<close>: the conversion in \<open>clean_data\<close> raises, the call returns \<open>False\<close>, and nothing is
  upserted or deleted.
\<close>

lemma bad_margin_not_synced:
  "sync_inventory example_py (example_world bad_margin_sheet True) ''inventory''
     = (False, example_world bad_margin_sheet True)"
proof -
  have "read_stock example_py bad_margin_sheet = Inr (rows_with 1 0 (Some ''1001'') (Text ''abc%''))"
    unfolding bad_margin_sheet_def by (rule example_stock)
  with rows_valid bad_margin_raises show ?thesis
    using sync_conversion_raises[OF example_latest example_read] by blast
qed

text \<open>
  Claim C3.  Let the candidate set be non-empty (the locator returns a latest file), let
  the latest file be readable and let the validator run through (every stock cell
  converts).  After a committed upsert (valid verdict, every conversion of \<open>clean_data\<close>
  succeeds, at least one record, store reachable) the call returns \<open>True\<close> and \<open>os.remove\<close>
  has been tried on every candidate: the folder holds exactly its former files that are
  no candidate or cannot be removed, so, when every candidate can be removed, every
  candidate is gone, not only the latest.  On a \<open>Wrong_file\<close> or \<open>No_marker\<close> verdict no
  upsert request is issued, the table is unchanged, every removable candidate is deleted
  and the call returns \<open>False\<close>.  If the upsert raises because the store is unreachable,
  the call returns \<open>False\<close>, the table is unchanged and the folder is exactly as before,
  so the files remain for the next cycle.
\<close>

theorem sync_inventory_file_handling:
  assumes "get_latest_inventory_file (folder w) file_pattern = (Some latest, all_files)"
    and "read_excel w latest = Inr sheet"
    and "read_stock py sheet = Inr df"
  shows
   "(validate_inventory_file df = Valid \<and>
     clean_data py (filter (\<lambda>r. \<not> is_marker_row r) df) = Inr records \<and> records \<noteq> [] \<and>
     store_reachable w \<longrightarrow>
       fst (sync_inventory py w file_pattern) = True \<and>
       upsert_requests (snd (sync_inventory py w file_pattern)) = upsert_requests w @ [records] \<and>
       inventory_table (snd (sync_inventory py w file_pattern)) =
         upsert_rows records (inventory_table w) \<and>
       folder_files (folder (snd (sync_inventory py w file_pattern))) =
         {n \<in> folder_files (folder w). \<not> (name_matches file_pattern n \<and> removable w n)} \<and>
       ((\<forall>f\<in>set all_files. removable w f) \<longrightarrow>
          folder_files (folder (snd (sync_inventory py w file_pattern))) =
            {n \<in> folder_files (folder w). \<not> name_matches file_pattern n}))
    \<and> (validate_inventory_file df \<noteq> Valid \<longrightarrow>
       fst (sync_inventory py w file_pattern) = False \<and>
       upsert_requests (snd (sync_inventory py w file_pattern)) = upsert_requests w \<and>
       inventory_table (snd (sync_inventory py w file_pattern)) = inventory_table w \<and>
       folder_files (folder (snd (sync_inventory py w file_pattern))) =
         {n \<in> folder_files (folder w). \<not> (name_matches file_pattern n \<and> removable w n)} \<and>
       ((\<forall>f\<in>set all_files. removable w f) \<longrightarrow>
          folder_files (folder (snd (sync_inventory py w file_pattern))) =
            {n \<in> folder_files (folder w). \<not> name_matches file_pattern n}))
    \<and> (validate_inventory_file df = Valid \<and>
     clean_data py (filter (\<lambda>r. \<not> is_marker_row r) df) = Inr records \<and> records \<noteq> [] \<and>
     \<not> store_reachable w \<longrightarrow>
       fst (sync_inventory py w file_pattern) = False \<and>
       inventory_table (snd (sync_inventory py w file_pattern)) = inventory_table w \<and>
       folder (snd (sync_inventory py w file_pattern)) = folder w)"
proof (intro conjI impI)
  assume h: "validate_inventory_file df = Valid \<and>
     clean_data py (filter (\<lambda>r. \<not> is_marker_row r) df) = Inr records \<and> records \<noteq> [] \<and>
     store_reachable w"
  then have eq: "sync_inventory py w file_pattern =
     (True, w\<lparr>upsert_requests := upsert_requests w @ [records],
              inventory_table := upsert_rows records (inventory_table w),
              folder := delete_all_inventory_files (removable w) (folder w) all_files\<rparr>)"
    using sync_committed[OF assms] by blast
  show "fst (sync_inventory py w file_pattern) = True" by (simp add: eq)
  show "upsert_requests (snd (sync_inventory py w file_pattern)) = upsert_requests w @ [records]"
    by (simp add: eq)
  show "inventory_table (snd (sync_inventory py w file_pattern)) =
         upsert_rows records (inventory_table w)"
    by (simp add: eq)
  show "folder_files (folder (snd (sync_inventory py w file_pattern))) =
         {n \<in> folder_files (folder w). \<not> (name_matches file_pattern n \<and> removable w n)}"
    by (simp add: eq delete_candidates[OF assms(1)])
  show "folder_files (folder (snd (sync_inventory py w file_pattern))) =
            {n \<in> folder_files (folder w). \<not> name_matches file_pattern n}"
    if "\<forall>f\<in>set all_files. removable w f"
    by (simp add: eq delete_removable_candidates[OF assms(1) that])
next
  assume h: "validate_inventory_file df \<noteq> Valid"
  have eq: "sync_inventory py w file_pattern =
     (False, w\<lparr>folder := delete_all_inventory_files (removable w) (folder w) all_files\<rparr>)"
    using sync_rejected[OF assms h] .
  show "fst (sync_inventory py w file_pattern) = False" by (simp add: eq)
  show "upsert_requests (snd (sync_inventory py w file_pattern)) = upsert_requests w"
    by (simp add: eq)
  show "inventory_table (snd (sync_inventory py w file_pattern)) = inventory_table w"
    by (simp add: eq)
  show "folder_files (folder (snd (sync_inventory py w file_pattern))) =
         {n \<in> folder_files (folder w). \<not> (name_matches file_pattern n \<and> removable w n)}"
    by (simp add: eq delete_candidates[OF assms(1)])
  show "folder_files (folder (snd (sync_inventory py w file_pattern))) =
            {n \<in> folder_files (folder w). \<not> name_matches file_pattern n}"
    if "\<forall>f\<in>set all_files. removable w f"
    by (simp add: eq delete_removable_candidates[OF assms(1) that])
next
  assume h: "validate_inventory_file df = Valid \<and>
     clean_data py (filter (\<lambda>r. \<not> is_marker_row r) df) = Inr records \<and> records \<noteq> [] \<and>
     \<not> store_reachable w"
  then have eq: "sync_inventory py w file_pattern =
     (False, w\<lparr>upsert_requests := upsert_requests w @ [records]\<rparr>)"
    using sync_upsert_raises[OF assms] by blast
  show "fst (sync_inventory py w file_pattern) = False" by (simp add: eq)
  show "inventory_table (snd (sync_inventory py w file_pattern)) = inventory_table w"
    by (simp add: eq)
  show "folder (snd (sync_inventory py w file_pattern)) = folder w" by (simp add: eq)
qed

theorem sync_inventory_file_handling_witness:
  "fst (sync_inventory example_py (example_world (example_sheet 1 0) True) ''inventory'') = True
   \<and> folder_files (folder (snd (sync_inventory example_py
          (example_world (example_sheet 1 0) True) ''inventory'')))
       = {n \<in> folder_files (folder (example_world (example_sheet 1 0) True)).
            \<not> name_matches ''inventory'' n}
   \<and> fst (sync_inventory example_py (example_world (example_sheet 0 1) True) ''inventory'') = False
   \<and> upsert_requests (snd (sync_inventory example_py
          (example_world (example_sheet 0 1) True) ''inventory''))
       = upsert_requests (example_world (example_sheet 0 1) True)
   \<and> folder_files (folder (snd (sync_inventory example_py
          (example_world (example_sheet 0 1) True) ''inventory'')))
       = {n \<in> folder_files (folder (example_world (example_sheet 0 1) True)).
            \<not> name_matches ''inventory'' n}
   \<and> fst (sync_inventory example_py (example_world (example_sheet 1 0) False) ''inventory'') = False
   \<and> folder (snd (sync_inventory example_py (example_world (example_sheet 1 0) False) ''inventory''))
       = folder (example_world (example_sheet 1 0) False)"
proof -
  have reach: "store_reachable (example_world (example_sheet 1 0) True)"
    and unreach: "\<not> store_reachable (example_world (example_sheet 1 0) False)"
    by (simp_all add: example_world_def)
  have wrong: "validate_inventory_file (rows_with 0 1 (Some ''1001'') (Text ''45%'')) \<noteq> Valid"
    by (simp add: rows_wrong)
  have st: "read_stock example_py (example_sheet t y) = Inr (rows_with t y (Some ''1001'') (Text ''45%''))"
    for t y unfolding example_sheet_def by (rule example_stock)
  obtain rec1 where rec1: "clean_data example_py (filter (\<lambda>r. \<not> is_marker_row r)
       (rows_with 1 0 (Some ''1001'') (Text ''45%''))) = Inr [rec1]"
    using example_records by blast
  have ne: "[rec1] \<noteq> []" by simp
  note rm = example_removable[of "[''inventory_new.xlsx'', ''inventory_old.xlsx'']"]
  define w1 where "w1 = example_world (example_sheet 1 0) True"
  define w2 where "w2 = example_world (example_sheet 0 1) True"
  define w3 where "w3 = example_world (example_sheet 1 0) False"
  note t1 = sync_inventory_file_handling[where w = w1 and records = "[rec1]",
      unfolded w1_def, OF example_latest example_read st, folded w1_def]
  note t2 = sync_inventory_file_handling[where w = w2 and records = "[rec1]",
      unfolded w2_def, OF example_latest example_read st, folded w2_def]
  note t3 = sync_inventory_file_handling[where w = w3 and records = "[rec1]",
      unfolded w3_def, OF example_latest example_read st, folded w3_def]
  have c1: "validate_inventory_file (rows_with 1 0 (Some ''1001'') (Text ''45%'')) = Valid \<and>
     clean_data example_py (filter (\<lambda>r. \<not> is_marker_row r)
       (rows_with 1 0 (Some ''1001'') (Text ''45%''))) = Inr [rec1] \<and> [rec1] \<noteq> [] \<and>
     store_reachable w1"
    using rows_valid rec1 reach by (simp add: w1_def)
  have c3: "validate_inventory_file (rows_with 1 0 (Some ''1001'') (Text ''45%'')) = Valid \<and>
     clean_data example_py (filter (\<lambda>r. \<not> is_marker_row r)
       (rows_with 1 0 (Some ''1001'') (Text ''45%''))) = Inr [rec1] \<and> [rec1] \<noteq> [] \<and>
     \<not> store_reachable w3"
    using rows_valid rec1 unreach by (simp add: w3_def)
  have r1: "\<forall>f\<in>set [''inventory_new.xlsx'', ''inventory_old.xlsx'']. removable w1 f"
    and r2: "\<forall>f\<in>set [''inventory_new.xlsx'', ''inventory_old.xlsx'']. removable w2 f"
    using rm by (simp_all add: w1_def w2_def)
  from t1 c1 r1 have a1: "fst (sync_inventory example_py w1 ''inventory'') = True"
    and a2: "folder_files (folder (snd (sync_inventory example_py w1 ''inventory'')))
       = {n \<in> folder_files (folder w1). \<not> name_matches ''inventory'' n}"
    by blast+
  from t2 wrong r2 have b1: "fst (sync_inventory example_py w2 ''inventory'') = False"
    and b2: "upsert_requests (snd (sync_inventory example_py w2 ''inventory'')) = upsert_requests w2"
    and b3: "folder_files (folder (snd (sync_inventory example_py w2 ''inventory'')))
       = {n \<in> folder_files (folder w2). \<not> name_matches ''inventory'' n}"
    by blast+
  from t3 c3 have d1: "fst (sync_inventory example_py w3 ''inventory'') = False"
    and d2: "folder (snd (sync_inventory example_py w3 ''inventory'')) = folder w3"
    by blast+
  from a1 a2 b1 b2 b3 d1 d2 show ?thesis
    unfolding w1_def w2_def w3_def by (intro conjI)
qed

text \<open>
  Claim C10.  If the latest file is valid but, once the two marker rows are removed and the
  rows without a SKU are dropped, no record is left, then \<open>sync_inventory\<close> returns \<open>False\<close>
  and leaves the world as it found it: no upsert request is issued and no candidate file
  is deleted.
\<close>

theorem sync_inventory_no_records:
  assumes "get_latest_inventory_file (folder w) file_pattern = (Some latest, all_files)"
    and "read_excel w latest = Inr sheet"
    and "read_stock py sheet = Inr df"
    and "validate_inventory_file df = Valid"
    and "clean_data py (filter (\<lambda>r. \<not> is_marker_row r) df) = Inr []"
  shows "sync_inventory py w file_pattern = (False, w)"
  using assms by (simp add: sync_inventory_def)

theorem sync_inventory_no_records_witness:
  "sync_inventory example_py (example_world markers_only_sheet True) ''inventory''
     = (False, example_world markers_only_sheet True)"
proof -
  have st: "read_stock example_py markers_only_sheet = Inr (rows_with 1 0 None (Text ''45%''))"
    unfolding markers_only_sheet_def by (rule example_stock)
  from sync_inventory_no_records[OF example_latest example_read st rows_valid
          markers_only_records]
  show ?thesis .
qed

section \<open>Properties of the printer resolver\<close>

lemma case_insensitive_match_find:
  "case_insensitive_match av n = find (\<lambda>p. lower p = lower n) av"
  by (induction av) auto

lemma partial_match_find:
  "partial_match av n = find (\<lambda>p. py_in (lower n) (lower p)) av"
  by (induction av) auto

text \<open>
  Claim C7.  For every configured printer name and every list of available printers the
  resolver returns the configured name if it is in the list; otherwise the first available
  name that equals it up to case; otherwise the first available name whose lower-cased
  form contains the lower-cased configured name; otherwise the configured name unchanged.
  With the available names \<open>["Canon TR4700 series"]\<close> the configured name
  \<open>"canon tr4700 series"\<close> resolves to \<open>"Canon TR4700 series"\<close>.
\<close>

theorem printer_resolution_order:
  "get_actual_printer_name available_printers printer_name =
     (if printer_name \<in> set available_printers then printer_name
      else case find (\<lambda>p. lower p = lower printer_name) available_printers of
             Some p \<Rightarrow> p
           | None \<Rightarrow>
               (case find (\<lambda>p. \<exists>a b. lower p = a @ lower printer_name @ b) available_printers of
                  Some p \<Rightarrow> p
                | None \<Rightarrow> printer_name))
   \<and> get_actual_printer_name [''Canon TR4700 series''] ''canon tr4700 series''
       = ''Canon TR4700 series''"
proof
  show "get_actual_printer_name available_printers printer_name =
     (if printer_name \<in> set available_printers then printer_name
      else case find (\<lambda>p. lower p = lower printer_name) available_printers of
             Some p \<Rightarrow> p
           | None \<Rightarrow>
               (case find (\<lambda>p. \<exists>a b. lower p = a @ lower printer_name @ b) available_printers of
                  Some p \<Rightarrow> p
                | None \<Rightarrow> printer_name))"
    unfolding get_actual_printer_name_def case_insensitive_match_find partial_match_find
      py_in_iff
    by (cases available_printers) simp_all
  show "get_actual_printer_name [''Canon TR4700 series''] ''canon tr4700 series''
       = ''Canon TR4700 series''"
    by code_simp
qed

section \<open>Properties of the pending-action mailbox\<close>

lemma pending_request: "pending_action (request a s) = Some a"
  by (cases a) (simp_all add: request_def request_show_settings_def request_show_orders_def
        on_update_available_def)

lemma executed_request: "executed (request a s) = executed s"
  by (cases a) (simp_all add: request_def request_show_settings_def request_show_orders_def
        on_update_available_def)

lemma check_pending:
  "pending_action (check_pending_actions s) = None"
  by (simp add: check_pending_actions_def do_show_settings_def do_show_orders_def
        prompt_update_def Let_def split: option.splits action.splits)

lemma check_executed:
  "executed (check_pending_actions s) =
     executed s @ (case pending_action s of None \<Rightarrow> [] | Some a \<Rightarrow> [a])"
  by (simp add: check_pending_actions_def do_show_settings_def do_show_orders_def
        prompt_update_def Let_def split: option.splits action.splits)

lemma check_idle:
  "pending_action s = None \<Longrightarrow> check_pending_actions s = s"
  by (simp add: check_pending_actions_def)

lemma run_ticks_idle: "pending_action s = None \<Longrightarrow> run s (replicate n Tick) = s"
  by (induction n) (simp_all add: run_def check_idle)

lemma run_Cons: "run s (e # evs) = run (step s e) evs"
  by (simp add: run_def)

lemma run_ticks:
  "executed (run s (replicate (Suc n) Tick)) =
     executed s @ (case pending_action s of None \<Rightarrow> [] | Some a \<Rightarrow> [a])"
proof -
  have "run s (replicate (Suc n) Tick) = run (check_pending_actions s) (replicate n Tick)"
    by (simp add: run_Cons)
  also have "\<dots> = check_pending_actions s"
    by (rule run_ticks_idle) (rule check_pending)
  finally show ?thesis by (simp only: check_executed)
qed

lemma run_executed_bound:
  "length (executed (run s evs)) \<le> length (executed s) + length (filter (\<lambda>e. e = Tick) evs)"
proof (induction evs arbitrary: s)
  case Nil
  show ?case by (simp add: run_def)
next
  case (Cons e evs)
  show ?case
  proof (cases e)
    case (Request a)
    with Cons[of "request a s"] show ?thesis
      by (simp add: run_Cons executed_request)
  next
    case Tick
    have "length (executed (check_pending_actions s)) \<le> length (executed s) + 1"
      by (simp add: check_executed split: option.splits)
    with Tick Cons[of "check_pending_actions s"] show ?thesis
      by (simp add: run_Cons)
  qed
qed

text \<open>
  Claim C9.  A request overwrites whatever request was pending and executes nothing; a
  drain tick empties the slot and executes the pending action if there is one, so at most
  one action per tick: over any sequence of events at most as many actions are executed
  as there were ticks.  A request for the settings window followed by a request for the
  orders window, with no tick in between, and then any positive number of ticks executes
  exactly one action, the orders action; the settings action is not executed.
\<close>

theorem mailbox_last_write_wins:
  "pending_action (request a (request b s)) = Some a
   \<and> executed (request a s) = executed s
   \<and> pending_action (check_pending_actions s) = None
   \<and> executed (check_pending_actions s) =
        executed s @ (case pending_action s of None \<Rightarrow> [] | Some c \<Rightarrow> [c])
   \<and> length (executed (run s evs)) \<le> length (executed s) + length (filter (\<lambda>e. e = Tick) evs)
   \<and> executed (run (request_show_orders (request_show_settings s)) (replicate (Suc n) Tick))
        = executed s @ [Orders]"
proof -
  have o: "request_show_orders (request_show_settings s) = request Orders (request Settings s)"
    by (simp add: request_def)
  have "executed (run (request Orders (request Settings s)) (replicate (Suc n) Tick))
        = executed s @ [Orders]"
    by (simp only: run_ticks pending_request executed_request option.case)
  with run_executed_bound[of s evs] show ?thesis
    by (simp only: o pending_request executed_request check_pending check_executed)
qed

section \<open>Properties of the order fulfillment engine\<close>

lemma db_update_fault:
  "update_faults w = Some msg # rest \<Longrightarrow>
   db_update w d oid =
     (Inl (StoreError msg), w\<lparr>update_log := update_log w @ [(oid, d)], update_faults := rest\<rparr>)"
  by (simp add: db_update_def)

lemma db_update_ok:
  "update_faults w = [] \<or> (\<exists>rest. update_faults w = None # rest) \<Longrightarrow>
   db_update w d oid =
     (Inr (), w\<lparr>update_log := update_log w @ [(oid, d)], update_faults := tl (update_faults w),
               orders := touch oid d (orders w)\<rparr>)"
  by (auto simp: db_update_def touch_def)

lemma db_update_cases:
  obtains msg rest where "update_faults w = Some msg # rest"
      and "db_update w d oid =
        (Inl (StoreError msg), w\<lparr>update_log := update_log w @ [(oid, d)], update_faults := rest\<rparr>)"
  | "db_update w d oid =
     (Inr (), w\<lparr>update_log := update_log w @ [(oid, d)], update_faults := tl (update_faults w),
               orders := touch oid d (orders w)\<rparr>)"
proof (cases "update_faults w")
  case Nil
  then show ?thesis using that(2) db_update_ok[of w d oid] by simp
next
  case (Cons f rest)
  show ?thesis
  proof (cases f)
    case None
    with Cons show ?thesis using that(2) db_update_ok[of w d oid] by simp
  next
    case (Some msg)
    with Cons show ?thesis using that(1) db_update_fault[of w msg rest d oid] by simp
  qed
qed

lemma print_not_ready:
  "\<not> rendered_and_dispatched w en pn o1 \<Longrightarrow> print_order_pdf w o1 en pn = (None, w)"
  by (auto simp: print_order_pdf_def rendered_and_dispatched_def Let_def)

lemma print_ready:
  "rendered_and_dispatched w en pn o1 \<Longrightarrow>
   print_order_pdf w o1 en pn =
     (case db_update w (update_data_full w (pdf_path_for w o1)) (order_id o1) of
           (Inr u, w1) \<Rightarrow> (Some (pdf_path_for w o1), w1)
         | (Inl db_error, w1) \<Rightarrow>
             if py_in ''pdf_path'' (error_text db_error) \<or> py_in ''PGRST204'' (error_text db_error)
             then (case db_update w1 (update_data_simple w1) (order_id o1) of
                     (Inr u, w2) \<Rightarrow> (Some (pdf_path_for w o1), w2)
                   | (Inl retry_error, w2) \<Rightarrow> (None, w2))
             else (None, w1))"
  by (auto simp: print_order_pdf_def rendered_and_dispatched_def Let_def)

lemma schema_mismatch_py_in:
  "schema_mismatch msg \<longleftrightarrow> py_in ''pdf_path'' msg \<or> py_in ''PGRST204'' msg"
  by (simp add: schema_mismatch_def py_in_iff)

lemma error_text_Store [simp]: "error_text (StoreError msg) = msg"
  by (simp add: error_text_def)

lemma print_first_fault_mismatch:
  assumes "rendered_and_dispatched w en pn o1"
    and "update_faults w = Some msg # rest"
    and "schema_mismatch msg"
  shows "print_order_pdf w o1 en pn =
     (case db_update (w\<lparr>update_log := update_log w @
                             [(order_id o1, update_data_full w (pdf_path_for w o1))],
                          update_faults := rest\<rparr>)
             (update_data_simple w) (order_id o1) of
        (Inr u, w2) \<Rightarrow> (Some (pdf_path_for w o1), w2)
      | (Inl retry_error, w2) \<Rightarrow> (None, w2))"
  using assms
  by (simp add: print_ready db_update_fault schema_mismatch_py_in update_data_simple_def)

lemma print_first_fault_other:
  assumes "rendered_and_dispatched w en pn o1"
    and "update_faults w = Some msg # rest"
    and "\<not> schema_mismatch msg"
  shows "print_order_pdf w o1 en pn =
     (None, w\<lparr>update_log := update_log w @
                             [(order_id o1, update_data_full w (pdf_path_for w o1))],
                          update_faults := rest\<rparr>)"
  using assms
  by (simp add: print_ready db_update_fault schema_mismatch_py_in)

text \<open>
  The commit of \<open>print_order_pdf\<close>.  When the order is ready to be committed and the update
  with the full field set raises: if the error text mentions \<open>pdf_path\<close> or \<open>PGRST204\<close>,
  exactly one further update is issued, with the reduced field set that has no \<open>pdf_path\<close>,
  and the call fails without changing the table if that one raises too; for any other
  error text no further update is issued, the call returns \<open>None\<close> and the table is unchanged.
\<close>

lemma commit_retries_once_on_schema_mismatch:
  assumes "rendered_and_dispatched w en pn o1"
    and "update_faults w = Some msg # rest"
  shows
   "(schema_mismatch msg \<longrightarrow>
       update_log (snd (print_order_pdf w o1 en pn)) =
         update_log w @ [(order_id o1, update_data_full w (pdf_path_for w o1)),
                         (order_id o1, update_data_simple w)]
       \<and> set_pdf_path (update_data_simple w) = None
       \<and> ((\<exists>msg2 rest2. rest = Some msg2 # rest2) \<longrightarrow>
             fst (print_order_pdf w o1 en pn) = None \<and>
             orders (snd (print_order_pdf w o1 en pn)) = orders w)
       \<and> (\<not> (\<exists>msg2 rest2. rest = Some msg2 # rest2) \<longrightarrow>
             fst (print_order_pdf w o1 en pn) = Some (pdf_path_for w o1) \<and>
             orders (snd (print_order_pdf w o1 en pn)) =
               map (\<lambda>x. if order_id x = order_id o1
                         then apply_update (update_data_simple w) x else x) (orders w)))
    \<and> (\<not> schema_mismatch msg \<longrightarrow>
       update_log (snd (print_order_pdf w o1 en pn)) =
         update_log w @ [(order_id o1, update_data_full w (pdf_path_for w o1))]
       \<and> fst (print_order_pdf w o1 en pn) = None
       \<and> orders (snd (print_order_pdf w o1 en pn)) = orders w)"
proof (intro conjI impI)
  assume m: "schema_mismatch msg"
  define w1 where "w1 = w\<lparr>update_log := update_log w @
                             [(order_id o1, update_data_full w (pdf_path_for w o1))],
                          update_faults := rest\<rparr>"
  have eq: "print_order_pdf w o1 en pn =
     (case db_update w1 (update_data_simple w) (order_id o1) of
        (Inr u, w2) \<Rightarrow> (Some (pdf_path_for w o1), w2)
      | (Inl retry_error, w2) \<Rightarrow> (None, w2))"
    unfolding w1_def using print_first_fault_mismatch[OF assms m] .
  show "update_log (snd (print_order_pdf w o1 en pn)) =
         update_log w @ [(order_id o1, update_data_full w (pdf_path_for w o1)),
                         (order_id o1, update_data_simple w)]"
    by (rule db_update_cases[of w1 "update_data_simple w" "order_id o1"])
       (simp_all add: eq w1_def)
  show "set_pdf_path (update_data_simple w) = None"
    by (simp add: update_data_simple_def)
  show "fst (print_order_pdf w o1 en pn) = None"
    if "\<exists>msg2 rest2. rest = Some msg2 # rest2"
  proof -
    from that obtain msg2 rest2 where "update_faults w1 = Some msg2 # rest2"
      by (auto simp: w1_def)
    from db_update_fault[OF this] show ?thesis by (simp add: eq)
  qed
  show "orders (snd (print_order_pdf w o1 en pn)) = orders w"
    if "\<exists>msg2 rest2. rest = Some msg2 # rest2"
  proof -
    from that obtain msg2 rest2 where "update_faults w1 = Some msg2 # rest2"
      by (auto simp: w1_def)
    from db_update_fault[OF this] show ?thesis by (simp add: eq w1_def)
  qed
  show "fst (print_order_pdf w o1 en pn) = Some (pdf_path_for w o1)"
    if "\<not> (\<exists>msg2 rest2. rest = Some msg2 # rest2)"
  proof -
    from that have "update_faults w1 = [] \<or> (\<exists>r. update_faults w1 = None # r)"
      by (cases rest) (auto simp: w1_def)
    from db_update_ok[OF this] show ?thesis by (simp add: eq)
  qed
  show "orders (snd (print_order_pdf w o1 en pn)) =
               map (\<lambda>x. if order_id x = order_id o1
                         then apply_update (update_data_simple w) x else x) (orders w)"
    if "\<not> (\<exists>msg2 rest2. rest = Some msg2 # rest2)"
  proof -
    from that have "update_faults w1 = [] \<or> (\<exists>r. update_faults w1 = None # r)"
      by (cases rest) (auto simp: w1_def)
    from db_update_ok[OF this] show ?thesis by (simp add: eq touch_def w1_def)
  qed
next
  assume m: "\<not> schema_mismatch msg"
  note eq = print_first_fault_other[OF assms m]
  show "update_log (snd (print_order_pdf w o1 en pn)) =
         update_log w @ [(order_id o1, update_data_full w (pdf_path_for w o1))]"
    by (simp add: eq)
  show "fst (print_order_pdf w o1 en pn) = None" by (simp add: eq)
  show "orders (snd (print_order_pdf w o1 en pn)) = orders w" by (simp add: eq)
qed

lemma print_step_ok: "step_ok w en pn o1 (snd (print_order_pdf w o1 en pn))"
proof (cases "rendered_and_dispatched w en pn o1")
  case False
  then show ?thesis by (simp add: print_not_ready step_ok_def same_env_def)
next
  case True
  define d1 where "d1 = update_data_full w (pdf_path_for w o1)"
  show ?thesis
  proof (rule db_update_cases[of w d1 "order_id o1"])
    assume eq: "db_update w d1 (order_id o1) =
      (Inr (), w\<lparr>update_log := update_log w @ [(order_id o1, d1)],
                update_faults := tl (update_faults w),
                orders := touch (order_id o1) d1 (orders w)\<rparr>)"
    have "print_order_pdf w o1 en pn =
       (Some (pdf_path_for w o1), w\<lparr>update_log := update_log w @ [(order_id o1, d1)],
                update_faults := tl (update_faults w),
                orders := touch (order_id o1) d1 (orders w)\<rparr>)"
      using eq by (simp add: print_ready[OF True] d1_def[symmetric])
    then show ?thesis using True by (auto simp: step_ok_def same_env_def)
  next
    fix msg rest
    assume f: "update_faults w = Some msg # rest"
      and eq: "db_update w d1 (order_id o1) =
        (Inl (StoreError msg), w\<lparr>update_log := update_log w @ [(order_id o1, d1)],
                                 update_faults := rest\<rparr>)"
    define w1 where "w1 = w\<lparr>update_log := update_log w @ [(order_id o1, d1)],
                                 update_faults := rest\<rparr>"
    show ?thesis
    proof (cases "schema_mismatch msg")
      case False
      then have "print_order_pdf w o1 en pn = (None, w1)"
        using print_first_fault_other[OF True f] by (simp add: w1_def d1_def)
      then show ?thesis using True by (auto simp: step_ok_def same_env_def w1_def)
    next
      case m: True
      have p: "print_order_pdf w o1 en pn =
         (case db_update w1 (update_data_simple w) (order_id o1) of
            (Inr u, w2) \<Rightarrow> (Some (pdf_path_for w o1), w2)
          | (Inl retry_error, w2) \<Rightarrow> (None, w2))"
        using print_first_fault_mismatch[OF True f m] by (simp add: w1_def d1_def)
      show ?thesis
      proof (rule db_update_cases[of w1 "update_data_simple w" "order_id o1"])
        fix msg2 rest2
        assume "db_update w1 (update_data_simple w) (order_id o1) =
          (Inl (StoreError msg2),
           w1\<lparr>update_log := update_log w1 @ [(order_id o1, update_data_simple w)],
              update_faults := rest2\<rparr>)"
        then have "snd (print_order_pdf w o1 en pn) =
           w1\<lparr>update_log := update_log w1 @ [(order_id o1, update_data_simple w)],
              update_faults := rest2\<rparr>"
          by (simp add: p)
        then show ?thesis using True by (auto simp: step_ok_def same_env_def w1_def)
      next
        assume "db_update w1 (update_data_simple w) (order_id o1) =
          (Inr (), w1\<lparr>update_log := update_log w1 @ [(order_id o1, update_data_simple w)],
                     update_faults := tl (update_faults w1),
                     orders := touch (order_id o1) (update_data_simple w) (orders w1)\<rparr>)"
        then have "snd (print_order_pdf w o1 en pn) =
           w1\<lparr>update_log := update_log w1 @ [(order_id o1, update_data_simple w)],
                     update_faults := tl (update_faults w1),
                     orders := touch (order_id o1) (update_data_simple w) (orders w1)\<rparr>"
          by (simp add: p)
        then show ?thesis using True by (auto simp: step_ok_def same_env_def w1_def)
      qed
    qed
  qed
qed

lemma same_env_ready:
  "same_env w w' \<Longrightarrow> rendered_and_dispatched w' en pn s = rendered_and_dispatched w en pn s"
  by (simp add: same_env_def rendered_and_dispatched_def pdf_path_for_def)

lemma same_env_trans: "same_env w w1 \<Longrightarrow> same_env w1 w2 \<Longrightarrow> same_env w w2"
  by (simp add: same_env_def)

lemma kept_touch:
  "rendered_and_dispatched w en pn o1 \<Longrightarrow>
   list_all2 (kept w en pn [o1]) xs (touch (order_id o1) d xs)"
  by (induction xs) (auto simp: touch_def kept_def apply_update_def)

lemma kept_refl: "list_all2 (kept w en pn os) xs xs"
  by (induction xs) (auto simp: kept_def)

lemma kept_trans:
  assumes "kept w en pn [o1] x x1" and "kept w en pn os x1 x2"
  shows "kept w en pn (o1 # os) x x2"
  using assms by (auto simp: kept_def)

lemma process_orders_inv: "poll_inv w en pn os (process_orders w os en pn)"
proof (induction os arbitrary: w)
  case Nil
  show ?case by (simp add: poll_inv_def same_env_def kept_refl)
next
  case (Cons o1 os)
  define w0 where "w0 = w\<lparr>processing_log := processing_log w @ [order_id o1]\<rparr>"
  define w1 where "w1 = snd (print_order_pdf w0 o1 en pn)"
  define w2 where "w2 = process_orders w1 os en pn"
  have w2: "process_orders w (o1 # os) en pn = w2"
    by (simp add: w2_def w1_def w0_def)
  have e0: "same_env w w0" by (simp add: same_env_def w0_def)
  have f0: "update_log w0 = update_log w" "orders w0 = orders w"
    "processing_log w0 = processing_log w @ [order_id o1]"
    by (simp_all add: w0_def)
  have st: "step_ok w0 en pn o1 w1" unfolding w1_def by (rule print_step_ok)
  have iv: "poll_inv w1 en pn os w2" unfolding w2_def by (rule Cons.IH)
  have e1: "same_env w w1" using e0 st same_env_trans by (auto simp: step_ok_def)
  have r0: "rendered_and_dispatched w0 en pn s = rendered_and_dispatched w en pn s" for s
    using e0 by (rule same_env_ready)
  have r1: "rendered_and_dispatched w1 en pn s = rendered_and_dispatched w en pn s" for s
    using e1 by (rule same_env_ready)
  have env: "same_env w w2" using e1 iv same_env_trans by (auto simp: poll_inv_def)
  have plog: "processing_log w2 = processing_log w @ map order_id (o1 # os)"
    using st iv by (simp add: step_ok_def poll_inv_def f0)
  have ulog: "\<exists>new. update_log w2 = update_log w @ new \<and>
             (\<forall>e\<in>set new. \<exists>s\<in>set (o1 # os). fst e = order_id s \<and> rendered_and_dispatched w en pn s)"
  proof -
    from st obtain n1 where n1: "update_log w1 = update_log w @ n1"
      and n1e: "\<forall>e\<in>set n1. fst e = order_id o1 \<and> rendered_and_dispatched w en pn o1"
      by (auto simp: step_ok_def f0 r0)
    from iv obtain n2 where n2: "update_log w2 = update_log w1 @ n2"
      and n2e: "\<forall>e\<in>set n2. \<exists>s\<in>set os. fst e = order_id s \<and> rendered_and_dispatched w en pn s"
      by (auto simp: poll_inv_def r1)
    have "update_log w2 = update_log w @ (n1 @ n2)" using n1 n2 by simp
    moreover have "\<forall>e\<in>set (n1 @ n2). \<exists>s\<in>set (o1 # os). fst e = order_id s \<and>
        rendered_and_dispatched w en pn s"
      using n1e n2e by auto
    ultimately show ?thesis by blast
  qed
  have k1: "list_all2 (kept w en pn [o1]) (orders w) (orders w1)"
  proof -
    from st have "orders w1 = orders w \<or>
       (rendered_and_dispatched w en pn o1 \<and> (\<exists>d. orders w1 = touch (order_id o1) d (orders w)))"
      by (simp add: step_ok_def f0 r0)
    then show ?thesis using kept_refl kept_touch by auto
  qed
  have k2: "list_all2 (kept w en pn os) (orders w1) (orders w2)"
  proof -
    have "kept w1 en pn os = kept w en pn os"
      by (intro ext) (simp add: kept_def r1)
    with iv show ?thesis by (simp add: poll_inv_def)
  qed
  have "list_all2 (kept w en pn (o1 # os)) (orders w) (orders w2)"
    using k1 k2 by (rule list_all2_trans[rotated]) (rule kept_trans)
  with env plog ulog show ?case unfolding w2 by (simp add: poll_inv_def)
qed

lemma set_insort_newest: "set (insort_newest x ys) = insert x (set ys)"
  by (induction ys) auto

lemma set_newest_first: "set (newest_first xs) = set xs"
  by (induction xs) (auto simp: newest_first_def set_insort_newest)

lemma length_insort_newest: "length (insort_newest x ys) = Suc (length ys)"
  by (induction ys) auto

lemma length_newest_first: "length (newest_first xs) = length xs"
  by (induction xs) (auto simp: newest_first_def length_insort_newest)

lemma sorted_insort_newest:
  "sorted_wrt (\<lambda>a b. created_at b \<le> created_at a) ys \<Longrightarrow>
   sorted_wrt (\<lambda>a b. created_at b \<le> created_at a) (insort_newest x ys)"
  by (induction ys) (auto simp: set_insort_newest)

lemma sorted_newest_first: "sorted_wrt (\<lambda>a b. created_at b \<le> created_at a) (newest_first xs)"
  by (induction xs) (auto simp: newest_first_def sorted_insort_newest)

lemma set_select_unprinted:
  "set (select_unprinted w store) =
     (if store = ''yakima'' \<or> store = ''toppenish''
      then {x \<in> set (orders w). \<not> printed x \<and> (order_location x = store \<or> order_location x = ''both'')}
      else {x \<in> set (orders w). \<not> printed x})"
  by (auto simp: select_unprinted_def set_newest_first)

lemma sorted_select_unprinted:
  "sorted_wrt (\<lambda>a b. created_at b \<le> created_at a) (select_unprinted w store)"
  by (simp add: select_unprinted_def sorted_newest_first)

lemma poll_raises: "select_raises w \<Longrightarrow> poll_for_orders_once cfg w = (0, w)"
  by (simp add: poll_for_orders_once_def)

lemma poll_runs:
  "\<not> select_raises w \<Longrightarrow>
   poll_for_orders_once cfg w =
     (length (select_unprinted w (poll_store_name cfg)),
      process_orders w (select_unprinted w (poll_store_name cfg))
        (poll_enable_printer cfg) (poll_printer_name cfg))"
  by (simp add: poll_for_orders_once_def Let_def)

lemma poll_kept:
  "list_all2 (kept w (poll_enable_printer cfg) (poll_printer_name cfg)
                (select_unprinted w (poll_store_name cfg)))
     (orders w) (orders (snd (poll_for_orders_once cfg w)))
   \<and> (\<exists>new. update_log (snd (poll_for_orders_once cfg w)) = update_log w @ new \<and>
          (\<forall>e\<in>set new. \<exists>s\<in>set (select_unprinted w (poll_store_name cfg)).
              fst e = order_id s \<and>
              rendered_and_dispatched w (poll_enable_printer cfg) (poll_printer_name cfg) s))"
proof (cases "select_raises w")
  case True
  then show ?thesis by (simp add: poll_raises kept_refl)
next
  case False
  then show ?thesis
    using process_orders_inv[of w "poll_enable_printer cfg" "poll_printer_name cfg"
            "select_unprinted w (poll_store_name cfg)"]
    by (simp add: poll_runs poll_inv_def)
qed

lemma list_all2_right: "list_all2 P xs ys \<Longrightarrow> y \<in> set ys \<Longrightarrow> \<exists>x\<in>set xs. P x y"
  by (induction rule: list_all2_induct) auto

lemma list_all2_left: "list_all2 P xs ys \<Longrightarrow> x \<in> set xs \<Longrightarrow> \<exists>y\<in>set ys. P x y"
  by (induction rule: list_all2_induct) auto

lemma distinct_ids:
  "distinct (map order_id xs) \<Longrightarrow> x \<in> set xs \<Longrightarrow> y \<in> set xs \<Longrightarrow>
   order_id x = order_id y \<Longrightarrow> x = y"
  by (meson distinct_map inj_onD)

text \<open>
  Claim C1.  Let the ids of the orders in the store be distinct.  After one pass of
  \<open>poll_for_orders_once\<close>, every order that is printed was either printed before the pass
  or had its document rendered and, when printing is enabled in the configuration, sent
  to the printer successfully.  For every order returned by the query whose rendering or
  dispatch failed, the pass issues no update request for its id, the order is in the
  store unchanged (\<open>printed\<close> still false), and the query of the next pass returns it again.
\<close>

theorem printed_only_after_render_and_dispatch:
  assumes "distinct (map order_id (orders w))"
  shows
   "(\<forall>x'\<in>set (orders (snd (poll_for_orders_once cfg w))).
       printed x' \<longrightarrow>
       (\<exists>x\<in>set (orders w). order_id x = order_id x' \<and>
          (printed x \<or>
           rendered_and_dispatched w (poll_enable_printer cfg) (poll_printer_name cfg) x)))
    \<and> (\<forall>o1\<in>set (select_unprinted w (poll_store_name cfg)).
       \<not> rendered_and_dispatched w (poll_enable_printer cfg) (poll_printer_name cfg) o1 \<longrightarrow>
       (\<forall>e\<in>set (drop (length (update_log w))
                     (update_log (snd (poll_for_orders_once cfg w)))). fst e \<noteq> order_id o1)
       \<and> o1 \<in> set (orders (snd (poll_for_orders_once cfg w)))
       \<and> \<not> printed o1
       \<and> o1 \<in> set (select_unprinted (snd (poll_for_orders_once cfg w)) (poll_store_name cfg)))"
proof -
  define en where "en = poll_enable_printer cfg"
  define pn where "pn = poll_printer_name cfg"
  define sn where "sn = poll_store_name cfg"
  define w' where "w' = snd (poll_for_orders_once cfg w)"
  define data where "data = select_unprinted w sn"
  have sub: "set data \<subseteq> set (orders w)"
    by (auto simp: data_def set_select_unprinted split: if_splits)
  from poll_kept[of w cfg] obtain new
    where k: "list_all2 (kept w en pn data) (orders w) (orders w')"
      and lg: "update_log w' = update_log w @ new"
      and nw: "\<forall>e\<in>set new. \<exists>s\<in>set data. fst e = order_id s \<and> rendered_and_dispatched w en pn s"
    unfolding en_def pn_def sn_def w'_def data_def by blast
  have ready: "rendered_and_dispatched w en pn x"
    if "x \<in> set (orders w)" "s \<in> set data" "order_id x = order_id s"
       "rendered_and_dispatched w en pn s" for x s
  proof -
    from that(2) sub have "s \<in> set (orders w)" by blast
    with that(1,3) assms have "x = s" using distinct_ids by blast
    with that(4) show ?thesis by simp
  qed
  have a: "\<exists>x\<in>set (orders w). order_id x = order_id x' \<and>
          (printed x \<or> rendered_and_dispatched w en pn x)"
    if "x' \<in> set (orders w')" "printed x'" for x'
  proof -
    from list_all2_right[OF k that(1)] obtain x
      where x: "x \<in> set (orders w)" and kx: "kept w en pn data x x'" by blast
    from kx have "order_id x = order_id x'" by (simp add: kept_def)
    moreover have "printed x \<or> rendered_and_dispatched w en pn x"
      using kx that(2) ready[OF x] by (auto simp: kept_def)
    ultimately show ?thesis using x by blast
  qed
  have b: "(\<forall>e\<in>set (drop (length (update_log w)) (update_log w')). fst e \<noteq> order_id o1)
       \<and> o1 \<in> set (orders w') \<and> \<not> printed o1 \<and> o1 \<in> set (select_unprinted w' sn)"
    if o1: "o1 \<in> set data" and nr: "\<not> rendered_and_dispatched w en pn o1" for o1
  proof -
    have ow: "o1 \<in> set (orders w)" using o1 sub by blast
    from list_all2_left[OF k ow] obtain x'
      where x': "x' \<in> set (orders w')" and kx: "kept w en pn data o1 x'" by blast
    have "x' = o1" using kx nr ready[OF ow] by (auto simp: kept_def)
    with x' have in': "o1 \<in> set (orders w')" by simp
    have np: "\<not> printed o1" using o1 by (auto simp: data_def set_select_unprinted split: if_splits)
    have sel: "o1 \<in> set (select_unprinted w' sn)"
      using o1 in' by (auto simp: data_def set_select_unprinted split: if_splits)
    have "fst e \<noteq> order_id o1" if "e \<in> set new" for e
    proof
      assume eq: "fst e = order_id o1"
      from nw that obtain s where "s \<in> set data" "fst e = order_id s"
        "rendered_and_dispatched w en pn s" by blast
      with eq ready[OF ow, of s] nr show False by simp
    qed
    with lg in' np sel show ?thesis by simp
  qed
  from a b show ?thesis
    unfolding en_def pn_def sn_def w'_def data_def by blast
qed

theorem printed_only_after_render_and_dispatch_witness:
  "distinct (map order_id (orders
      (example_orders_world [example_order ''a'' ''yakima'' 1, example_order ''b'' ''both'' 2]
         [] (\<lambda>p. \<not> py_in ''Nb'' p))))
   \<and> rendered_and_dispatched
        (example_orders_world [example_order ''a'' ''yakima'' 1, example_order ''b'' ''both'' 2]
           [] (\<lambda>p. \<not> py_in ''Nb'' p))
        (poll_enable_printer (example_config ''Yakima'' True))
        (poll_printer_name (example_config ''Yakima'' True)) (example_order ''a'' ''yakima'' 1)
   \<and> order_id (example_order ''b'' ''both'' 2) \<notin> fst ` set (drop (length (update_log
        (example_orders_world [example_order ''a'' ''yakima'' 1, example_order ''b'' ''both'' 2]
           [] (\<lambda>p. \<not> py_in ''Nb'' p))))
        (update_log (snd (poll_for_orders_once (example_config ''Yakima'' True)
        (example_orders_world [example_order ''a'' ''yakima'' 1, example_order ''b'' ''both'' 2]
           [] (\<lambda>p. \<not> py_in ''Nb'' p))))))
   \<and> example_order ''b'' ''both'' 2 \<in> set (select_unprinted
        (snd (poll_for_orders_once (example_config ''Yakima'' True)
        (example_orders_world [example_order ''a'' ''yakima'' 1, example_order ''b'' ''both'' 2]
           [] (\<lambda>p. \<not> py_in ''Nb'' p))))
        (poll_store_name (example_config ''Yakima'' True)))"
proof -
  define w where "w = example_orders_world
     [example_order ''a'' ''yakima'' 1, example_order ''b'' ''both'' 2] [] (\<lambda>p. \<not> py_in ''Nb'' p)"
  define cfg where "cfg = example_config ''Yakima'' True"
  define b where "b = example_order ''b'' ''both'' 2"
  have d: "distinct (map order_id (orders w))" unfolding w_def by code_simp
  have mem: "example_order ''a'' ''yakima'' 1 \<in> set (orders w)" unfolding w_def by code_simp
  have npa: "\<forall>x\<in>set (orders w). \<not> printed x" unfolding w_def by code_simp
  have pa: "\<exists>x'\<in>set (orders (snd (poll_for_orders_once cfg w))).
              printed x' \<and> order_id x' = ''a''"
    unfolding w_def cfg_def by code_simp
  have ida: "order_id (example_order ''a'' ''yakima'' 1) = ''a''" by code_simp
  have ra: "rendered_and_dispatched w (poll_enable_printer cfg) (poll_printer_name cfg)
              (example_order ''a'' ''yakima'' 1)"
  proof -
    from pa obtain x' where x': "x' \<in> set (orders (snd (poll_for_orders_once cfg w)))"
      "printed x'" "order_id x' = ''a''" by blast
    with printed_only_after_render_and_dispatch[OF d, of cfg] npa
    obtain x where x: "x \<in> set (orders w)" "order_id x = ''a''"
      "rendered_and_dispatched w (poll_enable_printer cfg) (poll_printer_name cfg) x"
      by metis
    from x(1,2) mem ida d have "x = example_order ''a'' ''yakima'' 1"
      using distinct_ids by metis
    with x(3) show ?thesis by simp
  qed
  have sel: "b \<in> set (select_unprinted w (poll_store_name cfg))"
    unfolding w_def cfg_def b_def by code_simp
  have nr: "\<not> rendered_and_dispatched w (poll_enable_printer cfg) (poll_printer_name cfg) b"
    unfolding w_def cfg_def b_def by code_simp
  from printed_only_after_render_and_dispatch[OF d, of cfg] sel nr
  have fin: "(\<forall>e\<in>set (drop (length (update_log w))
                     (update_log (snd (poll_for_orders_once cfg w)))). fst e \<noteq> order_id b)
       \<and> b \<in> set (select_unprinted (snd (poll_for_orders_once cfg w)) (poll_store_name cfg))"
    by blast
  then have "order_id b \<notin> fst ` set (drop (length (update_log w))
                     (update_log (snd (poll_for_orders_once cfg w))))"
    by (auto simp: image_iff)
  with fin d ra show ?thesis unfolding w_def cfg_def b_def by blast
qed

text \<open>
  An instance whose configured store name is neither \<open>"yakima"\<close> nor \<open>"toppenish"\<close>: the
  query applies no location filter, so an order of location \<open>"yakima"\<close>, which is neither
  the configured location nor \<open>"both"\<close>, is returned, processed and counted.
\<close>

theorem poll_location_filter_counterexample:
  "poll_store_name (example_config ''Warehouse'' False) = ''warehouse''
   \<and> order_location (example_order ''a'' ''yakima'' 1) \<noteq> ''warehouse''
   \<and> order_location (example_order ''a'' ''yakima'' 1) \<noteq> ''both''
   \<and> example_order ''a'' ''yakima'' 1
        \<in> set (select_unprinted
                 (example_orders_world [example_order ''a'' ''yakima'' 1] [] (\<lambda>p. True))
                 (poll_store_name (example_config ''Warehouse'' False)))
   \<and> fst (poll_for_orders_once (example_config ''Warehouse'' False)
            (example_orders_world [example_order ''a'' ''yakima'' 1] [] (\<lambda>p. True))) = 1
   \<and> processing_log (snd (poll_for_orders_once (example_config ''Warehouse'' False)
            (example_orders_world [example_order ''a'' ''yakima'' 1] [] (\<lambda>p. True)))) = [''a'']"
  by code_simp

text \<open>
  Claim C4, amended.  The query of \<open>poll_for_orders_once\<close> returns only orders with
  \<open>printed\<close> false, newest first by creation time.  When the lower-cased configured store
  name is \<open>"yakima"\<close> or \<open>"toppenish"\<close> they are exactly the unprinted orders whose
  \<open>order_location\<close> is that name or \<open>"both"\<close>; for any other store name they are all the
  unprinted orders, whatever their location.  Unless the query raises, the pass starts
  processing exactly the orders returned, in that order, and returns their number; if the
  query raises it returns 0 and changes nothing.
\<close>

theorem poll_query_and_count:
  "set (select_unprinted w store) =
     (if store = ''yakima'' \<or> store = ''toppenish''
      then {x \<in> set (orders w). \<not> printed x \<and> (order_location x = store \<or> order_location x = ''both'')}
      else {x \<in> set (orders w). \<not> printed x})
   \<and> sorted_wrt (\<lambda>a b. created_at b \<le> created_at a) (select_unprinted w store)
   \<and> (\<not> select_raises w \<longrightarrow>
        fst (poll_for_orders_once cfg w) = length (select_unprinted w (poll_store_name cfg)) \<and>
        processing_log (snd (poll_for_orders_once cfg w)) =
          processing_log w @ map order_id (select_unprinted w (poll_store_name cfg)))
   \<and> (select_raises w \<longrightarrow> poll_for_orders_once cfg w = (0, w))"
proof -
  have "processing_log (snd (poll_for_orders_once cfg w)) =
          processing_log w @ map order_id (select_unprinted w (poll_store_name cfg))"
    if "\<not> select_raises w"
    using process_orders_inv[of w "poll_enable_printer cfg" "poll_printer_name cfg"
            "select_unprinted w (poll_store_name cfg)"] that
    by (simp add: poll_runs poll_inv_def)
  then show ?thesis
    by (simp add: set_select_unprinted sorted_select_unprinted poll_raises poll_runs)
qed

theorem poll_query_and_count_witness:
  "fst (poll_for_orders_once (example_config ''Yakima'' False)
          (example_orders_world
             [example_order ''a'' ''yakima'' 1, example_order ''b'' ''toppenish'' 2,
              example_order ''c'' ''both'' 3] [] (\<lambda>p. True))) = 2
   \<and> processing_log (snd (poll_for_orders_once (example_config ''Yakima'' False)
          (example_orders_world
             [example_order ''a'' ''yakima'' 1, example_order ''b'' ''toppenish'' 2,
              example_order ''c'' ''both'' 3] [] (\<lambda>p. True)))) = [''c'', ''a'']"
proof -
  define w where "w = example_orders_world
             [example_order ''a'' ''yakima'' 1, example_order ''b'' ''toppenish'' 2,
              example_order ''c'' ''both'' 3] [] (\<lambda>p. True)"
  define cfg where "cfg = example_config ''Yakima'' False"
  have nr: "\<not> select_raises w" unfolding w_def by code_simp
  have sel: "map order_id (select_unprinted w (poll_store_name cfg)) = [''c'', ''a'']"
    unfolding w_def cfg_def by code_simp
  have pl: "processing_log w = []" unfolding w_def by code_simp
  from sel have len: "length (select_unprinted w (poll_store_name cfg)) = 2"
    by (metis length_map length_Cons list.size(3) numeral_2_eq_2)
  from poll_query_and_count[of w "poll_store_name cfg" cfg] nr sel pl len
  have "fst (poll_for_orders_once cfg w) = 2 \<and>
        processing_log (snd (poll_for_orders_once cfg w)) = [''c'', ''a'']"
    by simp
  then show ?thesis unfolding w_def cfg_def .
qed

text \<open>
  \<open>mark_order_printed\<close> of the stand-alone polling script retries with the reduced field
  set only when the error text mentions \<open>pdf_path\<close>.
\<close>

lemma mark_order_printed_full_fault:
  assumes "update_faults w = Some msg # rest"
  shows "mark_order_printed w oid (Some (c # cs)) =
     (if py_in ''pdf_path'' msg
      then (case db_update (w\<lparr>update_log := update_log w @ [(oid, update_data_full w (c # cs))],
                              update_faults := rest\<rparr>) (update_data_simple w) oid of
              (Inr u, w2) \<Rightarrow> (True, w2)
            | (Inl e, w2) \<Rightarrow> (False, w2))
      else (False, w\<lparr>update_log := update_log w @ [(oid, update_data_full w (c # cs))],
                     update_faults := rest\<rparr>))"
  using assms by (simp add: mark_order_printed_def db_update_fault)

lemma mark_retries_once_on_pdf_path:
  assumes "update_faults w = Some msg # rest"
  shows
   "(mentions_pdf_path msg \<longrightarrow>
       update_log (snd (mark_order_printed w oid (Some (c # cs)))) =
         update_log w @ [(oid, update_data_full w (c # cs)), (oid, update_data_simple w)]
       \<and> set_pdf_path (update_data_simple w) = None
       \<and> ((\<exists>msg2 rest2. rest = Some msg2 # rest2) \<longrightarrow>
             fst (mark_order_printed w oid (Some (c # cs))) = False \<and>
             orders (snd (mark_order_printed w oid (Some (c # cs)))) = orders w)
       \<and> (\<not> (\<exists>msg2 rest2. rest = Some msg2 # rest2) \<longrightarrow>
             fst (mark_order_printed w oid (Some (c # cs))) = True \<and>
             orders (snd (mark_order_printed w oid (Some (c # cs)))) =
               map (\<lambda>x. if order_id x = oid
                         then apply_update (update_data_simple w) x else x) (orders w)))
    \<and> (\<not> mentions_pdf_path msg \<longrightarrow>
       update_log (snd (mark_order_printed w oid (Some (c # cs)))) =
         update_log w @ [(oid, update_data_full w (c # cs))]
       \<and> fst (mark_order_printed w oid (Some (c # cs))) = False
       \<and> orders (snd (mark_order_printed w oid (Some (c # cs)))) = orders w)"
proof (intro conjI impI)
  assume m: "mentions_pdf_path msg"
  then have pm: "py_in ''pdf_path'' msg" by (simp add: mentions_pdf_path_def py_in_iff)
  define w1 where "w1 = w\<lparr>update_log := update_log w @ [(oid, update_data_full w (c # cs))],
                          update_faults := rest\<rparr>"
  have eq: "mark_order_printed w oid (Some (c # cs)) =
     (case db_update w1 (update_data_simple w) oid of
        (Inr u, w2) \<Rightarrow> (True, w2)
      | (Inl e, w2) \<Rightarrow> (False, w2))"
    unfolding w1_def using mark_order_printed_full_fault[OF assms] pm by simp
  show "update_log (snd (mark_order_printed w oid (Some (c # cs)))) =
         update_log w @ [(oid, update_data_full w (c # cs)), (oid, update_data_simple w)]"
    by (rule db_update_cases[of w1 "update_data_simple w" oid]) (simp_all add: eq w1_def)
  show "set_pdf_path (update_data_simple w) = None"
    by (simp add: update_data_simple_def)
  show "fst (mark_order_printed w oid (Some (c # cs))) = False"
    if "\<exists>msg2 rest2. rest = Some msg2 # rest2"
  proof -
    from that obtain msg2 rest2 where "update_faults w1 = Some msg2 # rest2"
      by (auto simp: w1_def)
    from db_update_fault[OF this] show ?thesis by (simp add: eq)
  qed
  show "orders (snd (mark_order_printed w oid (Some (c # cs)))) = orders w"
    if "\<exists>msg2 rest2. rest = Some msg2 # rest2"
  proof -
    from that obtain msg2 rest2 where "update_faults w1 = Some msg2 # rest2"
      by (auto simp: w1_def)
    from db_update_fault[OF this] show ?thesis by (simp add: eq w1_def)
  qed
  show "fst (mark_order_printed w oid (Some (c # cs))) = True"
    if "\<not> (\<exists>msg2 rest2. rest = Some msg2 # rest2)"
  proof -
    from that have "update_faults w1 = [] \<or> (\<exists>r. update_faults w1 = None # r)"
      by (cases rest) (auto simp: w1_def)
    from db_update_ok[OF this] show ?thesis by (simp add: eq)
  qed
  show "orders (snd (mark_order_printed w oid (Some (c # cs)))) =
               map (\<lambda>x. if order_id x = oid
                         then apply_update (update_data_simple w) x else x) (orders w)"
    if "\<not> (\<exists>msg2 rest2. rest = Some msg2 # rest2)"
  proof -
    from that have "update_faults w1 = [] \<or> (\<exists>r. update_faults w1 = None # r)"
      by (cases rest) (auto simp: w1_def)
    from db_update_ok[OF this] show ?thesis by (simp add: eq touch_def w1_def)
  qed
next
  assume m: "\<not> mentions_pdf_path msg"
  then have pm: "\<not> py_in ''pdf_path'' msg" by (simp add: mentions_pdf_path_def py_in_iff)
  have eq: "mark_order_printed w oid (Some (c # cs)) =
     (False, w\<lparr>update_log := update_log w @ [(oid, update_data_full w (c # cs))],
               update_faults := rest\<rparr>)"
    using mark_order_printed_full_fault[OF assms] pm by simp
  show "update_log (snd (mark_order_printed w oid (Some (c # cs)))) =
         update_log w @ [(oid, update_data_full w (c # cs))]"
    by (simp add: eq)
  show "fst (mark_order_printed w oid (Some (c # cs))) = False" by (simp add: eq)
  show "orders (snd (mark_order_printed w oid (Some (c # cs)))) = orders w" by (simp add: eq)
qed

text \<open>
  A commit failure that carries the code \<open>PGRST204\<close> and does not name \<open>pdf_path\<close> (the
  store misses the column \<open>printed_at\<close>).  \<open>mark_order_printed\<close> of the stand-alone script
  issues the update with the full field set, does not retry and returns \<open>False\<close>: its
  guard is \<open>'pdf_path' in str(db_error)\<close>, and every other error is raised again.  On the
  same store \<open>print_order_pdf\<close> issues the full update and then one update without
  \<open>pdf_path\<close>.
\<close>

theorem mark_order_printed_PGRST204_counterexample:
  "schema_mismatch ''PGRST204: column printed_at of orders not found in the schema cache''
   \<and> fst (mark_order_printed
        (example_orders_world [example_order ''a'' ''yakima'' 1]
           [Some ''PGRST204: column printed_at of orders not found in the schema cache''] (\<lambda>p. True))
        ''a'' (Some ''order_pdfs/order_Na.pdf'')) = False
   \<and> update_log (snd (mark_order_printed
        (example_orders_world [example_order ''a'' ''yakima'' 1]
           [Some ''PGRST204: column printed_at of orders not found in the schema cache''] (\<lambda>p. True))
        ''a'' (Some ''order_pdfs/order_Na.pdf'')))
      = [(''a'', \<lparr>set_printed = True, set_printed_at = ''2025-01-01T12:00:00'',
                set_pdf_path = Some ''order_pdfs/order_Na.pdf''\<rparr>)]
   \<and> map (\<lambda>e. set_pdf_path (snd e)) (update_log (snd (print_order_pdf
        (example_orders_world [example_order ''a'' ''yakima'' 1]
           [Some ''PGRST204: column printed_at of orders not found in the schema cache''] (\<lambda>p. True))
        (example_order ''a'' ''yakima'' 1) False None)))
      = [Some ''order_pdfs/order_Na_20250101_120000.pdf'', None]"
proof (intro conjI)
  show "schema_mismatch ''PGRST204: column printed_at of orders not found in the schema cache''"
    unfolding schema_mismatch_py_in by code_simp
  show "fst (mark_order_printed
        (example_orders_world [example_order ''a'' ''yakima'' 1]
           [Some ''PGRST204: column printed_at of orders not found in the schema cache''] (\<lambda>p. True))
        ''a'' (Some ''order_pdfs/order_Na.pdf'')) = False"
    by code_simp
  show "update_log (snd (mark_order_printed
        (example_orders_world [example_order ''a'' ''yakima'' 1]
           [Some ''PGRST204: column printed_at of orders not found in the schema cache''] (\<lambda>p. True))
        ''a'' (Some ''order_pdfs/order_Na.pdf'')))
      = [(''a'', \<lparr>set_printed = True, set_printed_at = ''2025-01-01T12:00:00'',
                set_pdf_path = Some ''order_pdfs/order_Na.pdf''\<rparr>)]"
    by code_simp
  show "map (\<lambda>e. set_pdf_path (snd e)) (update_log (snd (print_order_pdf
        (example_orders_world [example_order ''a'' ''yakima'' 1]
           [Some ''PGRST204: column printed_at of orders not found in the schema cache''] (\<lambda>p. True))
        (example_order ''a'' ''yakima'' 1) False None)))
      = [Some ''order_pdfs/order_Na_20250101_120000.pdf'', None]"
    by code_simp
qed

text \<open>
  Claim C5, amended.  Let the update with the full field set
  \<open>{printed, printed_at, pdf_path}\<close> raise.  In \<open>print_order_pdf\<close> the schema-mismatch signal
  is an error text that mentions \<open>pdf_path\<close> or \<open>PGRST204\<close>; in \<open>mark_order_printed\<close> it is an
  error text that mentions \<open>pdf_path\<close>.  On its signal each of the two issues exactly one
  further update, with the reduced field set \<open>{printed, printed_at}\<close>; if that one raises
  too the call fails and the order is unchanged, otherwise the order is committed.  On
  any other error text no further update is issued, the call reports failure and the
  order is unchanged, hence unprinted.
\<close>

theorem commit_retry_policy:
  assumes "update_faults w = Some msg # rest"
  shows
   "(rendered_and_dispatched w en pn o1 \<longrightarrow>
      (schema_mismatch msg \<longrightarrow>
         update_log (snd (print_order_pdf w o1 en pn)) =
           update_log w @ [(order_id o1, update_data_full w (pdf_path_for w o1)),
                           (order_id o1, update_data_simple w)]
         \<and> set_pdf_path (update_data_simple w) = None
         \<and> ((\<exists>msg2 rest2. rest = Some msg2 # rest2) \<longrightarrow>
               fst (print_order_pdf w o1 en pn) = None \<and>
               orders (snd (print_order_pdf w o1 en pn)) = orders w)
         \<and> (\<not> (\<exists>msg2 rest2. rest = Some msg2 # rest2) \<longrightarrow>
               fst (print_order_pdf w o1 en pn) = Some (pdf_path_for w o1) \<and>
               orders (snd (print_order_pdf w o1 en pn)) =
                 map (\<lambda>x. if order_id x = order_id o1
                           then apply_update (update_data_simple w) x else x) (orders w)))
      \<and> (\<not> schema_mismatch msg \<longrightarrow>
         update_log (snd (print_order_pdf w o1 en pn)) =
           update_log w @ [(order_id o1, update_data_full w (pdf_path_for w o1))]
         \<and> fst (print_order_pdf w o1 en pn) = None
         \<and> orders (snd (print_order_pdf w o1 en pn)) = orders w))
    \<and> (mentions_pdf_path msg \<longrightarrow>
       update_log (snd (mark_order_printed w oid (Some (c # cs)))) =
         update_log w @ [(oid, update_data_full w (c # cs)), (oid, update_data_simple w)]
       \<and> set_pdf_path (update_data_simple w) = None
       \<and> ((\<exists>msg2 rest2. rest = Some msg2 # rest2) \<longrightarrow>
             fst (mark_order_printed w oid (Some (c # cs))) = False \<and>
             orders (snd (mark_order_printed w oid (Some (c # cs)))) = orders w)
       \<and> (\<not> (\<exists>msg2 rest2. rest = Some msg2 # rest2) \<longrightarrow>
             fst (mark_order_printed w oid (Some (c # cs))) = True \<and>
             orders (snd (mark_order_printed w oid (Some (c # cs)))) =
               map (\<lambda>x. if order_id x = oid
                         then apply_update (update_data_simple w) x else x) (orders w)))
    \<and> (\<not> mentions_pdf_path msg \<longrightarrow>
       update_log (snd (mark_order_printed w oid (Some (c # cs)))) =
         update_log w @ [(oid, update_data_full w (c # cs))]
       \<and> fst (mark_order_printed w oid (Some (c # cs))) = False
       \<and> orders (snd (mark_order_printed w oid (Some (c # cs)))) = orders w)"
proof -
  have p: "rendered_and_dispatched w en pn o1 \<longrightarrow>
      (schema_mismatch msg \<longrightarrow>
         update_log (snd (print_order_pdf w o1 en pn)) =
           update_log w @ [(order_id o1, update_data_full w (pdf_path_for w o1)),
                           (order_id o1, update_data_simple w)]
         \<and> set_pdf_path (update_data_simple w) = None
         \<and> ((\<exists>msg2 rest2. rest = Some msg2 # rest2) \<longrightarrow>
               fst (print_order_pdf w o1 en pn) = None \<and>
               orders (snd (print_order_pdf w o1 en pn)) = orders w)
         \<and> (\<not> (\<exists>msg2 rest2. rest = Some msg2 # rest2) \<longrightarrow>
               fst (print_order_pdf w o1 en pn) = Some (pdf_path_for w o1) \<and>
               orders (snd (print_order_pdf w o1 en pn)) =
                 map (\<lambda>x. if order_id x = order_id o1
                           then apply_update (update_data_simple w) x else x) (orders w)))
      \<and> (\<not> schema_mismatch msg \<longrightarrow>
         update_log (snd (print_order_pdf w o1 en pn)) =
           update_log w @ [(order_id o1, update_data_full w (pdf_path_for w o1))]
         \<and> fst (print_order_pdf w o1 en pn) = None
         \<and> orders (snd (print_order_pdf w o1 en pn)) = orders w)"
    using commit_retries_once_on_schema_mismatch[OF _ assms] by (rule impI)
  from p mark_retries_once_on_pdf_path[OF assms, of oid c cs] show ?thesis
    by (rule conjI)
qed


theorem commit_retry_policy_witness:
  "update_log (snd (print_order_pdf
      (example_orders_world [example_order ''a'' ''yakima'' 1]
         [Some ''PGRST204: column printed_at of orders not found in the schema cache''] (\<lambda>p. True))
      (example_order ''a'' ''yakima'' 1) False None))
    = update_log (example_orders_world [example_order ''a'' ''yakima'' 1]
         [Some ''PGRST204: column printed_at of orders not found in the schema cache''] (\<lambda>p. True))
      @ [(order_id (example_order ''a'' ''yakima'' 1),
          update_data_full (example_orders_world [example_order ''a'' ''yakima'' 1]
             [Some ''PGRST204: column printed_at of orders not found in the schema cache'']
             (\<lambda>p. True))
            (pdf_path_for (example_orders_world [example_order ''a'' ''yakima'' 1]
               [Some ''PGRST204: column printed_at of orders not found in the schema cache'']
               (\<lambda>p. True)) (example_order ''a'' ''yakima'' 1))),
         (order_id (example_order ''a'' ''yakima'' 1),
          update_data_simple (example_orders_world [example_order ''a'' ''yakima'' 1]
             [Some ''PGRST204: column printed_at of orders not found in the schema cache'']
             (\<lambda>p. True)))]
   \<and> fst (mark_order_printed
      (example_orders_world [example_order ''a'' ''yakima'' 1]
         [Some ''column pdf_path of orders not found''] (\<lambda>p. True))
      ''a'' (Some ''order_pdfs/order_Na.pdf'')) = True
   \<and> update_log (snd (mark_order_printed
      (example_orders_world [example_order ''a'' ''yakima'' 1]
         [Some ''column pdf_path of orders not found''] (\<lambda>p. True))
      ''a'' (Some ''order_pdfs/order_Na.pdf'')))
    = update_log (example_orders_world [example_order ''a'' ''yakima'' 1]
         [Some ''column pdf_path of orders not found''] (\<lambda>p. True))
      @ [(''a'', update_data_full (example_orders_world [example_order ''a'' ''yakima'' 1]
             [Some ''column pdf_path of orders not found''] (\<lambda>p. True))
             ''order_pdfs/order_Na.pdf''),
         (''a'', update_data_simple (example_orders_world [example_order ''a'' ''yakima'' 1]
             [Some ''column pdf_path of orders not found''] (\<lambda>p. True)))]
   \<and> fst (mark_order_printed
      (example_orders_world [example_order ''a'' ''yakima'' 1]
         [Some ''PGRST204: column printed_at of orders not found in the schema cache''] (\<lambda>p. True))
      ''a'' (Some ''order_pdfs/order_Na.pdf'')) = False"
proof -
  define m1 where "m1 = ''PGRST204: column printed_at of orders not found in the schema cache''"
  define m2 where "m2 = ''column pdf_path of orders not found''"
  define a where "a = example_order ''a'' ''yakima'' 1"
  define w1 where "w1 = example_orders_world [a] [Some m1] (\<lambda>p. True)"
  define w2 where "w2 = example_orders_world [a] [Some m2] (\<lambda>p. True)"
  have f1: "update_faults w1 = Some m1 # []" by (simp add: w1_def example_orders_world_def)
  have f2: "update_faults w2 = Some m2 # []" by (simp add: w2_def example_orders_world_def)
  have rd: "rendered_and_dispatched w1 False None a"
    by (simp add: rendered_and_dispatched_def w1_def example_orders_world_def)
  have s1: "schema_mismatch m1" unfolding schema_mismatch_py_in m1_def by code_simp
  have n1: "\<not> mentions_pdf_path m1"
    unfolding mentions_pdf_path_def py_in_iff[symmetric] m1_def by code_simp
  have p2: "mentions_pdf_path m2"
    unfolding mentions_pdf_path_def py_in_iff[symmetric] m2_def by code_simp
  have nr: "\<not> (\<exists>msg2 rest2. ([] :: string option list) = Some msg2 # rest2)" by simp
  note t1 = commit_retry_policy[OF f1, of False None a "''a''" "CHR ''o''" "''rder_pdfs/order_Na.pdf''"]
  note t2 = commit_retry_policy[OF f2, of False None a "''a''" "CHR ''o''" "''rder_pdfs/order_Na.pdf''"]
  from t1 rd s1 have r1: "update_log (snd (print_order_pdf w1 a False None)) =
           update_log w1 @ [(order_id a, update_data_full w1 (pdf_path_for w1 a)),
                           (order_id a, update_data_simple w1)]"
    by blast
  from t2 p2 nr have r2: "fst (mark_order_printed w2 ''a'' (Some ''order_pdfs/order_Na.pdf'')) = True"
    and r3: "update_log (snd (mark_order_printed w2 ''a'' (Some ''order_pdfs/order_Na.pdf''))) =
         update_log w2 @ [(''a'', update_data_full w2 ''order_pdfs/order_Na.pdf''),
                          (''a'', update_data_simple w2)]"
    by blast+
  from t1 n1 have r4: "fst (mark_order_printed w1 ''a'' (Some ''order_pdfs/order_Na.pdf'')) = False"
    by blast
  from r1 r2 r3 r4 show ?thesis
    unfolding w1_def w2_def a_def m1_def m2_def by (intro conjI)
qed

section \<open>Properties of the floating-point model and the sales aggregator\<close>

declare ilog2.simps [simp del]

lemma ilog2_bounds: "0 < n \<Longrightarrow> 0 \<le> ilog2 n \<and> 2 ^ nat (ilog2 n) \<le> n \<and> n < 2 * 2 ^ nat (ilog2 n)"
proof (induction n rule: ilog2.induct)
  case (1 n)
  show ?case
  proof (cases "n < 2")
    case True
    with 1 show ?thesis by (simp add: ilog2.simps[of n])
  next
    case False
    then have "0 < n div 2" by simp
    with 1 False have ih: "0 \<le> ilog2 (n div 2)" "2 ^ nat (ilog2 (n div 2)) \<le> n div 2"
      "n div 2 < 2 * 2 ^ nat (ilog2 (n div 2))"
      by simp_all
    have eq: "ilog2 n = 1 + ilog2 (n div 2)" using False by (simp add: ilog2.simps[of n])
    have nat_eq: "nat (ilog2 n) = Suc (nat (ilog2 (n div 2)))" using ih(1) eq by simp
    from ih show ?thesis unfolding nat_eq by (simp add: eq) linarith
  qed
qed

lemma exponent_of_bounds:
  assumes "x \<noteq> 0"
  shows "2 powi exponent_of x \<le> \<bar>x\<bar> \<and> \<bar>x\<bar> < 2 powi (exponent_of x + 1)"
proof -
  obtain p q where pq: "quotient_of \<bar>x\<bar> = (p, q)" by (cases "quotient_of \<bar>x\<bar>")
  have q: "0 < q" using pq quotient_of_denom_pos by blast
  have x: "\<bar>x\<bar> = of_int p / of_int q" using pq quotient_of_div by blast
  have "0 < \<bar>x\<bar>" using assms by simp
  with x q have p: "0 < p" by (simp add: zero_less_divide_iff)
  define a where "a = ilog2 p"
  define b where "b = ilog2 q"
  from ilog2_bounds[OF p] have pa: "0 \<le> a" "2 ^ nat a \<le> p" "p < 2 * 2 ^ nat a"
    by (simp_all add: a_def)
  from ilog2_bounds[OF q] have qb: "0 \<le> b" "2 ^ nat b \<le> q" "q < 2 * 2 ^ nat b"
    by (simp_all add: b_def)
  have pr: "(2::rat) powi a \<le> of_int p" "(of_int p :: rat) < 2 * 2 powi a"
  proof -
    have "(of_int (2 ^ nat a) :: rat) \<le> of_int p" using pa(2) of_int_le_iff by blast
    then show "(2::rat) powi a \<le> of_int p" using pa(1) by (simp add: power_int_def)
    have "(of_int p :: rat) < of_int (2 * 2 ^ nat a)" using pa(3) of_int_less_iff by blast
    then show "(of_int p :: rat) < 2 * 2 powi a" using pa(1) by (simp add: power_int_def)
  qed
  have qr: "(2::rat) powi b \<le> of_int q" "(of_int q :: rat) < 2 * 2 powi b"
  proof -
    have "(of_int (2 ^ nat b) :: rat) \<le> of_int q" using qb(2) of_int_le_iff by blast
    then show "(2::rat) powi b \<le> of_int q" using qb(1) by (simp add: power_int_def)
    have "(of_int q :: rat) < of_int (2 * 2 ^ nat b)" using qb(3) of_int_less_iff by blast
    then show "(of_int q :: rat) < 2 * 2 powi b" using qb(1) by (simp add: power_int_def)
  qed
  define e0 where "e0 = a - b"
  have pw: "(2::rat) powi e0 = 2 powi a / 2 powi b"
    unfolding e0_def by (simp add: power_int_diff)
  have qpos: "(0::rat) < of_int q" and ppos: "(0::rat) \<le> of_int p" using q p by simp_all
  have bpos: "(0::rat) < 2 powi b" and apos: "(0::rat) \<le> 2 powi a" by simp_all
  have up: "\<bar>x\<bar> < 2 powi (e0 + 1)"
  proof -
    have "of_int p / of_int q < (2 * 2 powi a) / (2 powi b :: rat)"
      using ppos pr(2) bpos qr(1) by (rule frac_less)
    also have "\<dots> = 2 powi (e0 + 1)" by (simp add: power_int_add pw)
    finally show ?thesis by (simp add: x)
  qed
  have lo: "2 powi (e0 - 1) \<le> \<bar>x\<bar>"
  proof -
    have "(2 powi a :: rat) / (2 * 2 powi b) \<le> of_int p / of_int q"
      using frac_le[OF ppos pr(1) qpos less_imp_le[OF qr(2)]] .
    moreover have "(2::rat) powi (e0 - 1) = 2 powi a / (2 * 2 powi b)"
      by (simp add: power_int_diff pw)
    ultimately show ?thesis by (simp add: x)
  qed
  have ex: "exponent_of x = (if \<bar>x\<bar> < 2 powi e0 then e0 - 1 else e0)"
    by (simp add: exponent_of_def pq a_def b_def e0_def Let_def)
  show ?thesis
  proof (cases "\<bar>x\<bar> < 2 powi e0")
    case True
    with lo ex show ?thesis by simp
  next
    case False
    with up ex show ?thesis by simp
  qed
qed

lemma exponent_of_unique:
  assumes "2 powi e \<le> \<bar>x\<bar>" and "\<bar>x\<bar> < 2 powi (e + 1)"
  shows "exponent_of x = e"
proof -
  have "(0::rat) < 2 powi e" by simp
  with assms(1) have "0 < \<bar>x\<bar>" by linarith
  then have nz: "x \<noteq> 0" by simp
  define e' where "e' = exponent_of x"
  from exponent_of_bounds[OF nz]
  have b: "2 powi e' \<le> \<bar>x\<bar>" "\<bar>x\<bar> < 2 powi (e' + 1)" by (simp_all add: e'_def)
  have "\<not> e < e'"
  proof
    assume "e < e'"
    then have "(2::rat) powi (e + 1) \<le> 2 powi e'" by (intro power_int_increasing) simp_all
    with b(1) assms(2) show False by simp
  qed
  moreover have "\<not> e' < e"
  proof
    assume "e' < e"
    then have "(2::rat) powi (e' + 1) \<le> 2 powi e" by (intro power_int_increasing) simp_all
    with b(2) assms(1) show False by simp
  qed
  ultimately show ?thesis by (simp add: e'_def)
qed

lemma round_half_even_near:
  assumes "\<bar>y - of_int m\<bar> < 1 / 2"
  shows "round_half_even y = m"
proof -
  define r where "r = \<lfloor>y\<rfloor>"
  have r: "of_int r \<le> y" "y < of_int r + 1" by (simp_all add: r_def) linarith
  from assms have m: "of_int m - 1 / 2 < y" "y < of_int m + 1 / 2" by linarith+
  have "(of_int r :: rat) < of_int m + 1 / 2" using r(1) m(2) by linarith
  then have "(of_int r :: rat) < of_int (m + 1)" by simp
  then have rm: "r \<le> m" using of_int_less_iff[where 'a = rat] by (metis zle_add1_eq_le less_le)
  have "(of_int m :: rat) - 1 / 2 < of_int r + 1" using r(2) m(1) by linarith
  then have "(of_int (m - 1) :: rat) < of_int r + 1 / 2" by simp
  then have "(of_int (m - 1) :: rat) < of_int (r + 1)" by simp
  then have mr: "m - 1 \<le> r" using of_int_less_iff[where 'a = rat] by (metis zle_add1_eq_le less_le)
  from rm mr consider "r = m" | "r = m - 1" by linarith
  then show ?thesis
  proof cases
    case 1
    with m(2) have "y - of_int r < 1 / 2" by simp
    with 1 show ?thesis by (simp add: round_half_even_def r_def[symmetric] Let_def)
  next
    case 2
    with m(1) have "1 / 2 < y - of_int r" by simp
    with 2 show ?thesis by (simp add: round_half_even_def r_def[symmetric] Let_def)
  qed
qed

lemma to_double_near:
  assumes "2 powi e \<le> \<bar>x\<bar>" and "\<bar>x\<bar> < 2 powi (e + 1)"
    and "\<bar>x / 2 powi (e - 52) - of_int m\<bar> < 1 / 2"
  shows "to_double x = of_int m * 2 powi (e - 52)"
proof -
  have "(0::rat) < 2 powi e" by simp
  with assms(1) have "0 < \<bar>x\<bar>" by linarith
  then have nz: "x \<noteq> 0" by simp
  show ?thesis
    by (simp add: to_double_def nz exponent_of_unique[OF assms(1,2)]
        round_half_even_near[OF assms(3)])
qed



lemma quotient_example: "to_double (1200 / 4500) = 4803839602528529 / 2 ^ 54"
  using to_double_near[of "-2" "1200 / 4500" 4803839602528529] by simp

lemma percent_example: "to_double (4803839602528529 / 2 ^ 54 * 100) = 7505999378950827 / 2 ^ 48"
  using to_double_near[of 4 "4803839602528529 / 2 ^ 54 * 100" 7505999378950827] by simp

lemma round_example: "round_half_even (7505999378950827 / 2 ^ 48 * 100) = 2667"
  by (rule round_half_even_near) simp

lemma margin_example:
  "py_round2 (gross_margin_percent 1200 4500) = to_double (2667 / 100)"
proof -
  have "gross_margin_percent 1200 4500 = fmul (fdiv 1200 4500) 100"
    by (simp add: gross_margin_percent_def)
  also have "\<dots> = to_double (to_double (1200 / 4500) * 100)"
    by (simp only: fdiv_def fmul_def)
  also have "\<dots> = 7505999378950827 / 2 ^ 48"
    by (simp only: quotient_example percent_example)
  finally have "py_round2 (gross_margin_percent 1200 4500)
      = to_double (of_int (round_half_even (7505999378950827 / 2 ^ 48 * 100)) / 100)"
    by (simp only: py_round2_def)
  then show ?thesis by (simp only: round_example of_int_numeral)
qed

lemma quotient_refund: "to_double (- 20 / - 50) = 7205759403792794 / 2 ^ 54"
  using to_double_near[of "-2" "- 20 / - 50" 7205759403792794] by simp

lemma percent_refund: "to_double (7205759403792794 / 2 ^ 54 * 100) = 40"
  using to_double_near[of 5 "7205759403792794 / 2 ^ 54 * 100" 5629499534213120] by simp

lemma round_refund: "round_half_even 4000 = 4000"
  by (rule round_half_even_near) simp

lemma double_40: "to_double 40 = 40"
  using to_double_near[of 5 40 5629499534213120] by simp

lemma formula_refund: "py_round2 (fmul (fdiv (- 20) (- 50)) 100) = 40"
proof -
  have "fmul (fdiv (- 20) (- 50)) 100 = to_double (to_double (- 20 / - 50) * 100)"
    by (simp only: fdiv_def fmul_def)
  also have "\<dots> = 40"
    by (simp only: quotient_refund percent_refund)
  finally have "py_round2 (fmul (fdiv (- 20) (- 50)) 100)
      = to_double (of_int (round_half_even (40 * 100)) / 100)"
    by (simp only: py_round2_def)
  also have "\<dots> = to_double 40"
    by (simp add: round_refund)
  finally show ?thesis by (simp only: double_40)
qed

lemma py_round2_0: "py_round2 0 = 0"
  by (simp add: py_round2_def round_half_even_def to_double_def)

lemma totals_example:
  "sum_sales (totals_of column_sum (example_sales_sheet s g)) = s \<and>
   sum_gross_profit (totals_of column_sum (example_sales_sheet s g)) = g"
  by (simp add: totals_of_def example_sales_sheet_def float_or_0_def)

lemma process_example:
  "\<exists>r. process_sales_file column_sum parse_date (Inr (example_sales_sheet s g)) store = Some r"
  by (simp add: process_sales_file_def example_sales_sheet_def Let_def)

lemma process_avg:
  assumes "process_sales_file column_sum parse_date (Inr df) store = Some r"
  shows "avg_gross_margin r =
     py_round2 (gross_margin_percent (sum_gross_profit (totals_of column_sum df))
                  (sum_sales (totals_of column_sum df)))"
  using assms by (auto simp: process_sales_file_def Let_def split: list.splits)

text \<open>
  A day whose total row carries negative sales (refunds only): Sales = -50 and
  Gross Profit = -20.  The guard of the source is \<open>total_sales > 0\<close>, so the margin is 0,
  whereas gross profit divided by sales times 100, rounded to two decimals, is 40.
\<close>

theorem sales_margin_negative_counterexample:
  "map_option avg_gross_margin
     (process_sales_file (\<lambda>c. 0) (\<lambda>d. d) (Inr (example_sales_sheet (- 50) (- 20))) ''All Stores'')
     = Some 0
   \<and> sum_sales (totals_of (\<lambda>c. 0) (example_sales_sheet (- 50) (- 20))) = - 50
   \<and> sum_gross_profit (totals_of (\<lambda>c. 0) (example_sales_sheet (- 50) (- 20))) = - 20
   \<and> py_round2 (fmul (fdiv (- 20) (- 50)) 100) = 40"
proof -
  obtain r where r: "process_sales_file (\<lambda>c. 0) (\<lambda>d. d)
      (Inr (example_sales_sheet (- 50) (- 20))) ''All Stores'' = Some r"
    using process_example by blast
  have "avg_gross_margin r = 0"
    by (simp add: process_avg[OF r] totals_example gross_margin_percent_def py_round2_0)
  with r totals_example[of "\<lambda>c. 0" "- 50" "- 20"] formula_refund show ?thesis by simp
qed

text \<open>
  Claim C8, amended.  For every sales file that is parsed into a record, the record's
  \<open>avg_gross_margin\<close> is the total gross profit divided by the total sales, times 100,
  rounded to two decimals, when the total sales are greater than 0, and it is 0 when the
  total sales are 0 or negative.  A total row with Sales = 4500.00 and
  Gross Profit = 1200.00 gives \<open>avg_gross_margin\<close> = 26.67, the double nearest to 2667/100.
\<close>

theorem sales_margin_rounded:
  "(process_sales_file column_sum parse_date (Inr df) store = Some r \<longrightarrow>
      avg_gross_margin r =
        (if 0 < sum_sales (totals_of column_sum df)
         then py_round2 (fmul (fdiv (sum_gross_profit (totals_of column_sum df))
                                     (sum_sales (totals_of column_sum df))) 100)
         else 0))
   \<and> map_option avg_gross_margin
        (process_sales_file column_sum parse_date (Inr (example_sales_sheet 4500 1200)) store)
       = Some (to_double (2667 / 100))"
proof
  show "process_sales_file column_sum parse_date (Inr df) store = Some r \<longrightarrow>
      avg_gross_margin r =
        (if 0 < sum_sales (totals_of column_sum df)
         then py_round2 (fmul (fdiv (sum_gross_profit (totals_of column_sum df))
                                     (sum_sales (totals_of column_sum df))) 100)
         else 0)"
    by (auto simp: process_avg gross_margin_percent_def py_round2_0)
  obtain r' where r': "process_sales_file column_sum parse_date
      (Inr (example_sales_sheet 4500 1200)) store = Some r'"
    using process_example by blast
  have "avg_gross_margin r' = to_double (2667 / 100)"
    by (simp add: process_avg[OF r'] totals_example margin_example)
  with r' show "map_option avg_gross_margin
        (process_sales_file column_sum parse_date (Inr (example_sales_sheet 4500 1200)) store)
       = Some (to_double (2667 / 100))"
    by simp
qed

theorem sales_margin_rounded_witness:
  "map_option avg_gross_margin
     (process_sales_file (\<lambda>c. 0) (\<lambda>d. d) (Inr (example_sales_sheet 4500 1200)) ''All Stores'')
     = Some (py_round2 (fmul (fdiv 1200 4500) 100))"
proof -
  obtain r where r: "process_sales_file (\<lambda>c. 0) (\<lambda>d. d)
      (Inr (example_sales_sheet 4500 1200)) ''All Stores'' = Some r"
    using process_example by blast
  from sales_margin_rounded[of "\<lambda>c. 0" "\<lambda>d. d" "example_sales_sheet 4500 1200"
         "''All Stores''" r] r
  have "avg_gross_margin r = py_round2 (fmul (fdiv 1200 4500) 100)"
    by (simp add: totals_example)
  with r show ?thesis by simp
qed

end
